theory Spec2Isabelle
  imports Complex_Main "HOL-Library.Sublist" "HOL-Library.Log_Nat"
begin

section \<open>Python strings\<close>

text \<open>
  A Python \<open>str\<close> is modelled as a \<open>string\<close> whose characters are read as the code
  points 0 to 255 (Latin-1).  On these code points \<open>str.lower\<close> works character by
  character and stays below 256, and the classes \<open>\w\<close> and \<open>\s\<close> of \<open>re\<close> (Unicode
  aware on \<open>str\<close> patterns) are the finite sets written out below.  \<open>\s\<close>,
  \<open>str.isspace\<close> and the characters removed by \<open>str.strip()\<close> coincide.
\<close>

definition code_point :: "char \<Rightarrow> nat" where
  "code_point c = of_char c"

definition lower_char :: "char \<Rightarrow> char" where
  "lower_char c =
     (let n = code_point c in
      if (65 \<le> n \<and> n \<le> 90) \<or> (192 \<le> n \<and> n \<le> 222 \<and> n \<noteq> 215)
      then char_of (n + 32) else c)"

definition lower :: "string \<Rightarrow> string" where
  "lower t = map lower_char t"

definition is_space :: "char \<Rightarrow> bool" where
  "is_space c =
     (let n = code_point c in
      (9 \<le> n \<and> n \<le> 13) \<or> (28 \<le> n \<and> n \<le> 32) \<or> n = 133 \<or> n = 160)"

definition is_word :: "char \<Rightarrow> bool" where
  "is_word c =
     (let n = code_point c in
      (48 \<le> n \<and> n \<le> 57) \<or> (65 \<le> n \<and> n \<le> 90) \<or> n = 95 \<or> (97 \<le> n \<and> n \<le> 122)
      \<or> n = 170 \<or> n = 178 \<or> n = 179 \<or> n = 181 \<or> n = 185 \<or> n = 186
      \<or> (188 \<le> n \<and> n \<le> 190) \<or> (192 \<le> n \<and> n \<le> 214) \<or> (216 \<le> n \<and> n \<le> 246)
      \<or> (248 \<le> n \<and> n \<le> 255))"

text \<open>\<open>sub in text\<close>: \<open>sub\<close> occurs in \<open>text\<close> as a contiguous substring.\<close>

fun contains :: "string \<Rightarrow> string \<Rightarrow> bool" where
  "contains sub [] = (sub = [])"
| "contains sub (c # cs) = (prefix sub (c # cs) \<or> contains sub cs)"

text \<open>
  \<open>text.replace(old, new)\<close>: every non-overlapping occurrence of \<open>old\<close>, found from
  left to right, is replaced; the scan resumes after the occurrence.  An empty \<open>old\<close>
  matches before every character and at the end.
\<close>

function replace :: "string \<Rightarrow> string \<Rightarrow> string \<Rightarrow> string" where
  "replace old new [] = (if old = [] then new else [])"
| "replace old new (c # cs) =
     (if old = [] then new @ c # replace old new cs
      else if prefix old (c # cs) then new @ replace old new (drop (length old) (c # cs))
      else c # replace old new cs)"
  by pat_completeness auto
termination
  by (relation "measure (\<lambda>(old, new, t). length t)") auto

text \<open>\<open>re.sub(r'[^\w\s.,-]', '', text)\<close>: the characters outside the class are deleted.\<close>

definition keep_char :: "char \<Rightarrow> bool" where
  "keep_char c = (is_word c \<or> is_space c \<or> c = CHR ''.'' \<or> c = CHR '','' \<or> c = CHR ''-'')"

definition strip_symbols :: "string \<Rightarrow> string" where
  "strip_symbols t = filter keep_char t"

text \<open>\<open>re.sub(r'\s+', ' ', text)\<close>: every maximal run of whitespace becomes one space.\<close>

function collapse_spaces :: "string \<Rightarrow> string" where
  "collapse_spaces [] = []"
| "collapse_spaces (c # cs) =
     (if is_space c then CHR '' '' # collapse_spaces (dropWhile is_space cs)
      else c # collapse_spaces cs)"
  by pat_completeness auto
termination
  by (relation "measure length") (auto simp: length_dropWhile_le less_Suc_eq_le)

text \<open>\<open>text.strip()\<close>: leading and trailing whitespace is removed.\<close>

definition strip :: "string \<Rightarrow> string" where
  "strip t = rev (dropWhile is_space (rev (dropWhile is_space t)))"

text \<open>\<open>str(n)\<close> for an integer: decimal digits, with a minus sign for a negative one.\<close>

fun digits :: "nat \<Rightarrow> string" where
  "digits n =
     (if n < 10 then [char_of (48 + n)] else digits (n div 10) @ [char_of (48 + n mod 10)])"

definition str_int :: "int \<Rightarrow> string" where
  "str_int i = (if i < 0 then CHR ''-'' # digits (nat (- i)) else digits (nat i))"

section \<open>The text normalizer\<close>

text \<open>
  \<open>clean_text\<close> (lines 44 to 56).  The argument is \<open>None\<close> or a string; \<open>not text\<close> holds
  for \<open>None\<close> and for the empty string.
\<close>

definition abbreviate :: "string \<Rightarrow> string" where
  "abbreviate t =
     replace ''highschool'' ''highsch''
       (replace ''school'' ''sch''
         (replace ''national'' ''nat''
           (replace ''high school'' ''highschool'' t)))"

definition clean_text :: "string option \<Rightarrow> string" where
  "clean_text text =
     (case text of
        None \<Rightarrow> []
      | Some t \<Rightarrow>
          if t = [] then []
          else strip (abbreviate (collapse_spaces (strip_symbols (lower t)))))"

section \<open>Exceptions\<close>

text \<open>
  The exceptions the modelled code can raise.  \<open>KeyError\<close> carries the \<open>repr\<close> of the
  missing key, which is what \<open>str(e)\<close> shows.
\<close>

datatype py_error = IndexError | KeyError string | ZeroDivisionError

fun str_error :: "py_error \<Rightarrow> string" where
  "str_error IndexError = ''list index out of range''"
| "str_error (KeyError k) = k"
| "str_error ZeroDivisionError = ''division by zero''"

section \<open>Python floats\<close>

text \<open>
  A Python \<open>float\<close> is an IEEE 754 binary64 number; it is modelled by the rational it
  denotes.  \<open>fl q\<close> is the binary64 number nearest to the rational \<open>q\<close>, ties going to the
  even significand: 53 significant bits above \<open>2 powi - 1022\<close>, the fixed spacing
  \<open>2 powi - 1074\<close> below.  Overflow is not modelled; no quotient, product or rounding
  below exceeds 100.
\<close>

definition round_half_even :: "rat \<Rightarrow> int" where
  "round_half_even x =
     (let f = \<lfloor>x\<rfloor>; r = x - of_int f in
      if r < 1 / 2 then f else if 1 / 2 < r then f + 1 else if even f then f else f + 1)"

text \<open>\<open>binade q\<close> is the integer \<open>e\<close> with \<open>2 powi e \<le> q < 2 powi (e + 1)\<close>, for \<open>0 < q\<close>.\<close>

definition binade :: "rat \<Rightarrow> int" where
  "binade q =
     (let (a, b) = quotient_of q; k = bitlen a - bitlen b in
      if 2 powi k \<le> q then k else k - 1)"

definition ulp :: "rat \<Rightarrow> rat" where
  "ulp q = 2 powi (max (binade q) (- 1022) - 52)"

definition fl :: "rat \<Rightarrow> rat" where
  "fl q =
     (if q = 0 then 0
      else if q < 0 then - (of_int (round_half_even (- q / ulp (- q))) * ulp (- q))
      else of_int (round_half_even (q / ulp q)) * ulp q)"

text \<open>
  \<open>a / b\<close> on two integers: \<open>ZeroDivisionError\<close> for a zero divisor, otherwise the
  correctly rounded quotient \<open>float_quotient a b\<close>.  Then \<open>x * y\<close> on floats, and
  \<open>round(x, 1)\<close>: the exact value of \<open>x\<close> is rounded to the nearest multiple of one
  tenth, ties to the even digit, and that decimal is read back as a float.
\<close>

definition float_quotient :: "int \<Rightarrow> int \<Rightarrow> rat" where
  "float_quotient a b = fl (of_int a / of_int b)"

definition true_div :: "int \<Rightarrow> int \<Rightarrow> py_error + rat" where
  "true_div a b = (if b = 0 then Inl ZeroDivisionError else Inr (float_quotient a b))"

definition float_mul :: "rat \<Rightarrow> rat \<Rightarrow> rat" where
  "float_mul x y = fl (x * y)"

definition round1 :: "rat \<Rightarrow> rat" where
  "round1 x = fl (of_int (round_half_even (x * 10)) / 10)"

section \<open>Containers\<close>

text \<open>\<open>xs[i]\<close> on a list: a negative index counts from the end.\<close>

definition list_index :: "'a list \<Rightarrow> int \<Rightarrow> py_error + 'a" where
  "list_index xs i =
     (if 0 \<le> i \<and> i < int (length xs) then Inr (xs ! nat i)
      else if i < 0 \<and> - int (length xs) \<le> i then Inr (xs ! nat (int (length xs) + i))
      else Inl IndexError)"

text \<open>
  A \<open>dict\<close> with integer keys, kept in insertion order as an association list.
  \<open>d[k] += 1\<close> reads \<open>d[k]\<close> first and raises \<open>KeyError\<close> when the key is missing;
  \<open>d.get(k, 0)\<close> does not raise.
\<close>

fun dict_set :: "(int \<times> int) list \<Rightarrow> int \<Rightarrow> int \<Rightarrow> (int \<times> int) list" where
  "dict_set [] k v = [(k, v)]"
| "dict_set ((k', v') # d) k v = (if k' = k then (k, v) # d else (k', v') # dict_set d k v)"

definition dict_incr :: "(int \<times> int) list \<Rightarrow> int \<Rightarrow> py_error + (int \<times> int) list" where
  "dict_incr d k =
     (case map_of d k of
        None \<Rightarrow> Inl (KeyError (str_int k))
      | Some v \<Rightarrow> Inr (dict_set d k (v + 1)))"

definition dict_get :: "(int \<times> 'v) list \<Rightarrow> int \<Rightarrow> 'v \<Rightarrow> 'v" where
  "dict_get d k dflt = (case map_of d k of None \<Rightarrow> dflt | Some v \<Rightarrow> v)"

text \<open>
  \<open>max(items, key=...)\<close> on a non-empty sequence: the first item whose key is maximal.
\<close>

fun max_by :: "('a \<Rightarrow> int) \<Rightarrow> 'a \<Rightarrow> 'a list \<Rightarrow> 'a" where
  "max_by key best [] = best"
| "max_by key best (x # xs) = max_by key (if key best < key x then x else best) xs"

section \<open>Cluster table\<close>

text \<open>\<open>get_cluster_name\<close> (lines 58 to 65) and \<open>get_cluster_color\<close> (lines 67 to 70).\<close>

definition clusters :: "string list" where
  "clusters = [''Inabanga  Schools'', ''Clarin Schools'', ''Tubigon  Schools'']"

definition colors :: "string list" where
  "colors = [''#0088FE'', ''#00C49F'', ''#FFBB28'']"

definition get_cluster_name :: "int \<Rightarrow> py_error + string" where
  "get_cluster_name cluster_id =
     (if cluster_id < int (length clusters) then list_index clusters cluster_id
      else Inr (''Cluster '' @ str_int cluster_id))"

definition get_cluster_color :: "int \<Rightarrow> py_error + string" where
  "get_cluster_color cluster_id = list_index colors (cluster_id mod int (length colors))"

section \<open>Single prediction\<close>

record School =
  name :: string
  municipality :: string

text \<open>
  The module globals set at startup.  \<open>model\<close> and \<open>vectorizer\<close> are unpickled objects
  that are not part of the repository: \<open>ml_model g cleaned\<close> stands for
  \<open>int(model.predict(vectorizer.transform([cleaned]))[0])\<close>, with \<open>None\<close> when any of
  these calls raises.
\<close>

record globals =
  MODEL_LOADED :: bool
  ml_model :: "string \<Rightarrow> int option"

text \<open>
  The dictionary returned by \<open>predict_single\<close>; a key that a branch does not write is
  \<open>None\<close>.  \<open>timestamp\<close> is the reading of \<open>time.time()\<close>, passed in as \<open>now\<close>.
\<close>

record outcome =
  school :: string
  municipality :: string
  cluster_id :: "int option"
  cluster_name :: "string option"
  cluster_color :: "string option"
  model_used :: string
  success :: bool
  timestamp :: "rat option"
  error :: "string option"

definition or_unknown :: "string \<Rightarrow> string" where
  "or_unknown t = (if t = [] then ''Unknown'' else t)"

text \<open>\<open>predict_single_ml\<close> (lines 72 to 81): every exception becomes \<open>(None, "ml_failed")\<close>.\<close>

definition predict_single_ml :: "globals \<Rightarrow> School \<Rightarrow> int option \<times> string" where
  "predict_single_ml g s =
     (case ml_model g (clean_text (Some (name s @ '' | '' @ School.municipality s))) of
        Some cluster \<Rightarrow> (Some cluster, ''ml'')
      | None \<Rightarrow> (None, ''ml_failed''))"

text \<open>\<open>predict_single_rule\<close> (lines 83 to 92).\<close>

definition predict_single_rule :: "School \<Rightarrow> int \<times> string" where
  "predict_single_rule s =
     (let text = lower (name s @ '' '' @ School.municipality s) in
      if contains ''inabanga'' text \<or> contains ''dagohoy'' text then (0, ''rule_based'')
      else if contains ''tubigon'' text \<or> contains ''cawayanan'' text
              \<or> contains ''cabulijan'' text then (2, ''rule_based'')
      else (1, ''rule_based''))"

text \<open>
  \<open>predict_single\<close> (lines 94 to 122).  \<open>choose_cluster\<close> is the \<open>if MODEL_LOADED\<close>
  statement, \<open>predict_try\<close> the whole \<open>try\<close> block, whose dictionary display calls the two
  lookup helpers, and \<open>predict_single\<close> adds the \<open>except Exception\<close> handler.
\<close>

definition choose_cluster :: "globals \<Rightarrow> School \<Rightarrow> int \<times> string" where
  "choose_cluster g s =
     (if MODEL_LOADED g then
        (case predict_single_ml g s of
           (None, used) \<Rightarrow> predict_single_rule s
         | (Some cluster, used) \<Rightarrow> (cluster, used))
      else predict_single_rule s)"

definition predict_try :: "globals \<Rightarrow> rat \<Rightarrow> School \<Rightarrow> py_error + outcome" where
  "predict_try g now s =
     (let (cluster, used) = choose_cluster g s in
      case get_cluster_name cluster of
        Inl e \<Rightarrow> Inl e
      | Inr nm \<Rightarrow>
          (case get_cluster_color cluster of
             Inl e \<Rightarrow> Inl e
           | Inr col \<Rightarrow>
               Inr \<lparr>school = or_unknown (name s),
                    municipality = or_unknown (School.municipality s),
                    cluster_id = Some cluster, cluster_name = Some nm,
                    cluster_color = Some col, model_used = used, success = True,
                    timestamp = Some now, error = None\<rparr>))"

definition predict_single :: "globals \<Rightarrow> rat \<Rightarrow> School \<Rightarrow> py_error + outcome" where
  "predict_single g now s =
     (case predict_try g now s of
        Inr result \<Rightarrow> Inr result
      | Inl e \<Rightarrow>
          Inr \<lparr>school = or_unknown (name s),
               municipality = or_unknown (School.municipality s),
               cluster_id = None, cluster_name = None, cluster_color = None,
               model_used = ''error'', success = False, timestamp = None,
               error = Some (str_error e)\<rparr>)"

section \<open>Health check\<close>

record cluster_info =
  info_id :: int
  info_name :: string
  info_color :: string

record health =
  status :: string
  model_loaded :: bool
  health_clusters :: "cluster_info list"

text \<open>
  \<open>health_check\<close> (lines 139 to 163), without the formatted wall-clock \<open>timestamp\<close>.
  \<open>table_entry\<close> is one dictionary of the \<open>clusters\<close> list.
\<close>

definition table_entry :: "int \<Rightarrow> py_error + cluster_info" where
  "table_entry i =
     (case get_cluster_name i of
        Inl e \<Rightarrow> Inl e
      | Inr nm \<Rightarrow>
          (case get_cluster_color i of
             Inl e \<Rightarrow> Inl e
           | Inr col \<Rightarrow> Inr \<lparr>info_id = i, info_name = nm, info_color = col\<rparr>))"

text \<open>
  The values of a list of computations, evaluated from left to right, or the first
  exception.
\<close>

fun collect :: "(py_error + 'a) list \<Rightarrow> py_error + 'a list" where
  "collect [] = Inr []"
| "collect (Inl e # rs) = Inl e"
| "collect (Inr x # rs) = (case collect rs of Inl e \<Rightarrow> Inl e | Inr xs \<Rightarrow> Inr (x # xs))"

definition health_check :: "globals \<Rightarrow> py_error + health" where
  "health_check g =
     (case collect (map table_entry [0, 1, 2]) of
        Inl e \<Rightarrow> Inl e
      | Inr cs \<Rightarrow>
          Inr \<lparr>status = (if MODEL_LOADED g then ''healthy'' else ''degraded''),
               model_loaded = MODEL_LOADED g, health_clusters = cs\<rparr>)"

section \<open>Batch prediction\<close>

record cluster_entry =
  entry_id :: int
  entry_name :: string
  count :: int
  percentage :: rat
  color :: string

text \<open>
  The \<open>summary\<close> dictionary, without the two wall-clock fields
  \<open>processing_time_seconds\<close> and \<open>performance\<close>.
\<close>

record summary =
  total_schools :: int
  successful_predictions :: int
  failed_predictions :: int
  summary_clusters :: "cluster_entry list"
  dominant_cluster :: int
  dominant_cluster_name :: string
  summary_model_used :: string

text \<open>The two shapes of the response of \<open>get_cluster_batch\<close>.\<close>

datatype batch_response =
  ErrorShape string bool
| NormalShape "outcome list" summary

record loop_state =
  results :: "outcome list"
  cluster_counts :: "(int \<times> int) list"
  successful :: int

text \<open>
  The loop of lines 186 to 192.  The \<open>i\<close>-th call of \<open>predict_single\<close> reads the time
  \<open>clock i\<close>.  \<open>result["cluster_id"]\<close> raises \<open>KeyError\<close> on a dictionary without that key.
\<close>

fun batch_loop ::
  "globals \<Rightarrow> (nat \<Rightarrow> rat) \<Rightarrow> nat \<Rightarrow> School list \<Rightarrow> loop_state \<Rightarrow> py_error + loop_state" where
  "batch_loop g clock i [] st = Inr st"
| "batch_loop g clock i (s # ss) st =
     (case predict_single g (clock i) s of
        Inl e \<Rightarrow> Inl e
      | Inr result \<Rightarrow>
          (let st1 = st\<lparr>results := results st @ [result]\<rparr> in
           if success result then
             (case cluster_id result of
                None \<Rightarrow> Inl (KeyError (CHR 0x27 # ''cluster_id'' @ [CHR 0x27]))
              | Some k \<Rightarrow>
                  (case dict_incr (cluster_counts st1) k of
                     Inl e \<Rightarrow> Inl e
                   | Inr counts \<Rightarrow>
                       batch_loop g clock (Suc i) ss
                         (st1\<lparr>successful := successful st1 + 1, cluster_counts := counts\<rparr>)))
           else batch_loop g clock (Suc i) ss st1))"

text \<open>
  Lines 199 to 203, for one cluster id: \<open>percentage\<close> is \<open>count / successful * 100\<close> in
  float arithmetic, or the integer 0, and \<open>round(percentage, 1)\<close> is stored.
  \<open>percentage_value\<close> is the number stored when the division does not raise.
\<close>

definition cluster_percentage :: "(int \<times> int) list \<Rightarrow> int \<Rightarrow> int \<Rightarrow> py_error + rat" where
  "cluster_percentage counts n i =
     (let c = dict_get counts i 0 in
      if 0 < n then
        (case true_div c n of
           Inl e \<Rightarrow> Inl e
         | Inr q \<Rightarrow> Inr (round1 (float_mul q 100)))
      else Inr 0)"

definition percentage_value :: "(int \<times> int) list \<Rightarrow> int \<Rightarrow> int \<Rightarrow> rat" where
  "percentage_value counts n i =
     (if 0 < n then round1 (float_mul (float_quotient (dict_get counts i 0) n) 100) else 0)"

text \<open>Line 206: the key of the first item of the dictionary with the largest count.\<close>

definition find_dominant :: "(int \<times> int) list \<Rightarrow> int" where
  "find_dominant counts =
     (case counts of [] \<Rightarrow> 1 | item # items \<Rightarrow> fst (max_by snd item items))"

text \<open>One dictionary of the \<open>clusters\<close> list of the summary (lines 216 to 236).\<close>

definition summary_entry ::
  "(int \<times> int) list \<Rightarrow> (int \<times> rat) list \<Rightarrow> int \<Rightarrow> py_error + cluster_entry" where
  "summary_entry counts cluster_percentages i =
     (case get_cluster_name i of
        Inl e \<Rightarrow> Inl e
      | Inr nm \<Rightarrow>
          (case get_cluster_color i of
             Inl e \<Rightarrow> Inl e
           | Inr col \<Rightarrow>
               Inr \<lparr>entry_id = i, entry_name = nm, count = dict_get counts i 0,
                    percentage = dict_get cluster_percentages i 0, color = col\<rparr>))"

definition make_summary :: "globals \<Rightarrow> loop_state \<Rightarrow> py_error + summary" where
  "make_summary g st =
     (let total = int (length (results st)) in
      case collect (map (cluster_percentage (cluster_counts st) (successful st)) [0, 1, 2]) of
        Inl e \<Rightarrow> Inl e
      | Inr ps \<Rightarrow>
          (let cluster_percentages = zip [0, 1, 2] ps;
               dominant = find_dominant (cluster_counts st) in
           case collect (map (summary_entry (cluster_counts st) cluster_percentages) [0, 1, 2]) of
             Inl e \<Rightarrow> Inl e
           | Inr entries \<Rightarrow>
               (case get_cluster_name dominant of
                  Inl e \<Rightarrow> Inl e
                | Inr dominant_name \<Rightarrow>
                    Inr \<lparr>total_schools = total,
                         successful_predictions = successful st,
                         failed_predictions = total - successful st,
                         summary_clusters = entries,
                         dominant_cluster = dominant,
                         dominant_cluster_name = dominant_name,
                         summary_model_used =
                           (if MODEL_LOADED g then ''ml'' else ''rule_based'')\<rparr>)))"

text \<open>\<open>get_cluster_batch\<close> (lines 171 to 243).\<close>

definition get_cluster_batch ::
  "globals \<Rightarrow> (nat \<Rightarrow> rat) \<Rightarrow> School list \<Rightarrow> py_error + batch_response" where
  "get_cluster_batch g clock schools =
     (if schools = [] then Inr (ErrorShape ''No schools provided'' False)
      else
        (case batch_loop g clock 0 schools
                \<lparr>results = [], cluster_counts = [(0, 0), (1, 0), (2, 0)], successful = 0\<rparr> of
           Inl e \<Rightarrow> Inl e
         | Inr st \<Rightarrow>
             (case make_summary g st of
                Inl e \<Rightarrow> Inl e
              | Inr sm \<Rightarrow> Inr (NormalShape (results st) sm))))"

text \<open>
  \<open>tally rs k\<close> is the number of successful outcomes of \<open>rs\<close> whose cluster id is \<open>k\<close>;
  it is used to state what the summary counts.
\<close>

definition tally :: "outcome list \<Rightarrow> int \<Rightarrow> int" where
  "tally rs k = int (length (filter (\<lambda>r. success r \<and> cluster_id r = Some k) rs))"

text \<open>
  The rows \<open>(id, count, percentage)\<close> of the summary of a normal response, for stating
  what a concrete batch returns.
\<close>

definition summary_rows :: "py_error + batch_response \<Rightarrow> (int \<times> int \<times> rat) list" where
  "summary_rows response =
     (case response of
        Inr (NormalShape rs sm) \<Rightarrow>
          map (\<lambda>e. (entry_id e, count e, percentage e)) (summary_clusters sm)
      | _ \<Rightarrow> [])"

section \<open>Sample globals\<close>

text \<open>
  Three states of the module globals used in the examples below: no model was loaded,
  a model that answers \<open>c\<close> on every text, and a model whose call raises.
\<close>

definition no_model :: globals where
  "no_model = \<lparr>MODEL_LOADED = False, ml_model = (\<lambda>cleaned. None)\<rparr>"

definition model_returning :: "int \<Rightarrow> globals" where
  "model_returning c = \<lparr>MODEL_LOADED = True, ml_model = (\<lambda>cleaned. Some c)\<rparr>"

definition model_raising :: globals where
  "model_raising = \<lparr>MODEL_LOADED = True, ml_model = (\<lambda>cleaned. None)\<rparr>"

text \<open>A clock that reads 0 at every call.\<close>

definition noon :: "nat \<Rightarrow> rat" where
  "noon i = 0"

section \<open>Lookup helpers\<close>

declare digits.simps [simp del]

lemma contains_iff_sublist: "contains sub t \<longleftrightarrow> sublist sub t"
  by (induction t) (auto simp: sublist_Cons_right)

lemma get_cluster_color_total: "\<exists>c \<in> set colors. get_cluster_color i = Inr c"
proof -
  have "0 \<le> i mod 3" "i mod 3 < 3" by simp_all
  then have "i mod 3 = 0 \<or> i mod 3 = 1 \<or> i mod 3 = 2" by arith
  then show ?thesis
    by (auto simp: get_cluster_color_def list_index_def colors_def)
qed

lemma get_cluster_name_table:
  "get_cluster_name 0 = Inr ''Inabanga  Schools''"
  "get_cluster_name 1 = Inr ''Clarin Schools''"
  "get_cluster_name 2 = Inr ''Tubigon  Schools''"
  by (simp_all add: get_cluster_name_def list_index_def clusters_def)

lemma get_cluster_color_table:
  "get_cluster_color 0 = Inr ''#0088FE''"
  "get_cluster_color 1 = Inr ''#00C49F''"
  "get_cluster_color 2 = Inr ''#FFBB28''"
  by (simp_all add: get_cluster_color_def list_index_def colors_def)

lemma get_cluster_name_large: "3 \<le> i \<Longrightarrow> get_cluster_name i = Inr (''Cluster '' @ str_int i)"
  by (simp add: get_cluster_name_def clusters_def)

lemma get_cluster_name_negative:
  "- 3 \<le> i \<Longrightarrow> i < 0 \<Longrightarrow> get_cluster_name i = Inr (clusters ! nat (3 + i))"
  by (simp add: get_cluster_name_def list_index_def clusters_def)

lemma get_cluster_name_raises: "i < - 3 \<Longrightarrow> get_cluster_name i = Inl IndexError"
  by (simp add: get_cluster_name_def list_index_def clusters_def)

text \<open>
  C10.  The name lookup is not total: below \<open>- 3\<close> the guard \<open>cluster_id < len(clusters)\<close>
  lets the index through and \<open>clusters[cluster_id]\<close> raises \<open>IndexError\<close>; at \<open>- 4\<close>:
\<close>

theorem get_cluster_name_index_error: "get_cluster_name (- 4) = Inl IndexError"
  by (simp add: get_cluster_name_def list_index_def clusters_def)

section \<open>The normalizer on the worked examples\<close>

text \<open>
  C5.  \<open>clean_text\<close> maps \<open>"HIGH SCHOOL"\<close> to \<open>"highsch"\<close>, and the empty string and
  \<open>None\<close> to the empty string.  None of its steps can raise on a string, and \<open>None\<close>
  returns before the first of them, so the model has no exception to return.
\<close>

theorem clean_text_examples:
  "clean_text (Some ''HIGH SCHOOL'') = ''highsch''
   \<and> clean_text (Some []) = [] \<and> clean_text None = []"
  by code_simp

section \<open>The rule-based classifier\<close>

text \<open>
  C4.  \<open>predict_single_rule\<close> tests the lower-cased text \<open>name + " " + municipality\<close> in
  a fixed order: a cluster-0 keyword gives 0; otherwise a cluster-2 keyword gives 2;
  otherwise 1.  When keywords of both sets occur, the answer is 0.  Occurrence is the
  library's \<open>sublist\<close>: the keyword is a contiguous part of the text.
\<close>

theorem predict_single_rule_priority:
  fixes s :: School
  defines "t \<equiv> lower (name s @ '' '' @ School.municipality s)"
  defines "zero \<equiv> sublist ''inabanga'' t \<or> sublist ''dagohoy'' t"
  defines "two \<equiv> sublist ''tubigon'' t \<or> sublist ''cawayanan'' t \<or> sublist ''cabulijan'' t"
  shows "(zero \<longrightarrow> predict_single_rule s = (0, ''rule_based''))
       \<and> (\<not> zero \<and> two \<longrightarrow> predict_single_rule s = (2, ''rule_based''))
       \<and> (\<not> zero \<and> \<not> two \<longrightarrow> predict_single_rule s = (1, ''rule_based''))
       \<and> (zero \<and> two \<longrightarrow> fst (predict_single_rule s) = 0)"
  unfolding t_def zero_def two_def
  by (simp add: predict_single_rule_def Let_def contains_iff_sublist)

theorem predict_single_rule_priority_witness:
  "(sublist ''inabanga'' (lower (''TUBIGON ELEM'' @ '' '' @ ''INABANGA''))
    \<and> sublist ''tubigon'' (lower (''TUBIGON ELEM'' @ '' '' @ ''INABANGA'')))
   \<and> predict_single_rule \<lparr>name = ''TUBIGON ELEM'', municipality = ''INABANGA''\<rparr>
       = (0, ''rule_based'')"
proof -
  have a: "contains ''inabanga'' (lower (''TUBIGON ELEM'' @ '' '' @ ''INABANGA''))"
    by code_simp
  have b: "contains ''tubigon'' (lower (''TUBIGON ELEM'' @ '' '' @ ''INABANGA''))"
    by code_simp
  show ?thesis
    using a b
      predict_single_rule_priority [of "\<lparr>name = ''TUBIGON ELEM'', municipality = ''INABANGA''\<rparr>"]
    by (simp add: contains_iff_sublist)
qed

section \<open>Single prediction: tags and shape\<close>

lemma predict_single_rule_range:
  "predict_single_rule s = (0, ''rule_based'') \<or> predict_single_rule s = (1, ''rule_based'')
   \<or> predict_single_rule s = (2, ''rule_based'')"
  by (simp add: predict_single_rule_def Let_def)

lemma choose_cluster_eq:
  "choose_cluster g s =
     (if MODEL_LOADED g then
        (case ml_model g (clean_text (Some (name s @ '' | '' @ School.municipality s))) of
           Some c \<Rightarrow> (c, ''ml'') | None \<Rightarrow> predict_single_rule s)
      else predict_single_rule s)"
  by (simp add: choose_cluster_def predict_single_ml_def split: option.splits)

lemma get_cluster_name_nonempty:
  assumes "get_cluster_name i = Inr nm"
  shows "nm \<noteq> []"
proof (cases "3 \<le> i")
  case True
  then show ?thesis using assms by (auto simp: get_cluster_name_large)
next
  case False
  have "\<not> i < - 3" using assms by (auto simp: get_cluster_name_raises)
  with False have "i = - 3 \<or> i = - 2 \<or> i = - 1 \<or> i = 0 \<or> i = 1 \<or> i = 2" by arith
  then show ?thesis
    using assms by (auto simp: get_cluster_name_def list_index_def clusters_def)
qed

lemma get_cluster_color_nonempty: "get_cluster_color i = Inr col \<Longrightarrow> col \<noteq> []"
  using get_cluster_color_total [of i] by (auto simp: colors_def)

lemma get_cluster_name_ok: "- 3 \<le> i \<Longrightarrow> \<exists>nm. get_cluster_name i = Inr nm"
  by (auto simp: get_cluster_name_def list_index_def clusters_def)

lemma predict_try_ok:
  assumes "choose_cluster g s = (c, used)" "- 3 \<le> c"
  shows "\<exists>nm col. get_cluster_name c = Inr nm \<and> get_cluster_color c = Inr col \<and>
           predict_try g now s =
             Inr \<lparr>school = or_unknown (name s),
                  municipality = or_unknown (School.municipality s),
                  cluster_id = Some c, cluster_name = Some nm,
                  cluster_color = Some col, model_used = used, success = True,
                  timestamp = Some now, error = None\<rparr>"
proof -
  obtain nm where nm: "get_cluster_name c = Inr nm"
    using get_cluster_name_ok [OF assms(2)] by blast
  obtain col where col: "get_cluster_color c = Inr col"
    using get_cluster_color_total [of c] by blast
  show ?thesis
    using assms(1) nm col by (simp add: predict_try_def)
qed

lemma predict_try_raises:
  assumes "choose_cluster g s = (c, used)" "c < - 3"
  shows "predict_try g now s = Inl IndexError"
  using assms by (simp add: predict_try_def get_cluster_name_raises)

lemma predict_single_ok:
  assumes "choose_cluster g s = (c, used)" "- 3 \<le> c"
  shows "\<exists>nm col. get_cluster_name c = Inr nm \<and> get_cluster_color c = Inr col \<and>
           predict_single g now s =
             Inr \<lparr>school = or_unknown (name s),
                  municipality = or_unknown (School.municipality s),
                  cluster_id = Some c, cluster_name = Some nm,
                  cluster_color = Some col, model_used = used, success = True,
                  timestamp = Some now, error = None\<rparr>"
  using predict_try_ok [OF assms, of now] by (auto simp: predict_single_def)

lemma predict_single_raises:
  assumes "choose_cluster g s = (c, used)" "c < - 3"
  shows "predict_single g now s =
             Inr \<lparr>school = or_unknown (name s),
                  municipality = or_unknown (School.municipality s),
                  cluster_id = None, cluster_name = None, cluster_color = None,
                  model_used = ''error'', success = False, timestamp = None,
                  error = Some ''list index out of range''\<rparr>"
  using predict_try_raises [OF assms, of now] by (simp add: predict_single_def)

lemma choose_cluster_used:
  "snd (choose_cluster g s) = ''ml'' \<or> snd (choose_cluster g s) = ''rule_based''"
  using predict_single_rule_range [of s]
  by (auto simp: choose_cluster_eq split: option.splits)

text \<open>
  C1.  \<open>predict_single\<close> always returns a dictionary and never raises.  With the model
  loaded and an answer from the ML path the tag is \<open>"ml"\<close>; with the model loaded and a
  failed ML path, or with no model, the rule-based classifier decides and the tag is
  \<open>"rule_based"\<close>; when the \<open>try\<close> block raises, the tag is \<open>"error"\<close>, \<open>success\<close> is
  false and the message is recorded.  The only exception the \<open>try\<close> block can raise is
  the \<open>IndexError\<close> of the name lookup, for an ML answer below \<open>- 3\<close>.
\<close>

theorem predict_single_model_used:
  fixes g :: globals and now :: rat and s :: School
  defines "answer \<equiv> ml_model g (clean_text (Some (name s @ '' | '' @ School.municipality s)))"
  shows "\<exists>r. predict_single g now s = Inr r
     \<and> (MODEL_LOADED g \<and> (\<exists>c. answer = Some c \<and> - 3 \<le> c)
          \<longrightarrow> model_used r = ''ml'' \<and> success r \<and> cluster_id r = answer)
     \<and> (MODEL_LOADED g \<and> answer = None
          \<longrightarrow> model_used r = ''rule_based'' \<and> success r
              \<and> cluster_id r = Some (fst (predict_single_rule s)))
     \<and> (\<not> MODEL_LOADED g
          \<longrightarrow> model_used r = ''rule_based'' \<and> success r
              \<and> cluster_id r = Some (fst (predict_single_rule s)))
     \<and> (MODEL_LOADED g \<and> (\<exists>c. answer = Some c \<and> c < - 3)
          \<longrightarrow> model_used r = ''error'' \<and> \<not> success r
              \<and> error r = Some ''list index out of range'')
     \<and> ((\<exists>e. predict_try g now s = Inl e) \<longleftrightarrow> model_used r = ''error'')
     \<and> (model_used r = ''error'' \<longleftrightarrow> \<not> success r)"
proof -
  obtain c used where cu: "choose_cluster g s = (c, used)"
    by (cases "choose_cluster g s")
  have used: "used = ''ml'' \<or> used = ''rule_based''"
    using choose_cluster_used [of g s] cu by simp
  have rule: "fst (predict_single_rule s) \<in> {0, 1, 2}" "snd (predict_single_rule s) = ''rule_based''"
    using predict_single_rule_range [of s] by auto
  show ?thesis
  proof (cases "- 3 \<le> c")
    case True
    from predict_single_ok [OF cu True, of now] predict_try_ok [OF cu True, of now]
    obtain r where r: "predict_single g now s = Inr r" "model_used r = used" "success r"
      "cluster_id r = Some c" "\<exists>r'. predict_try g now s = Inr r'"
      by fastforce
    show ?thesis
      using r used cu rule True unfolding answer_def
      by (auto simp: choose_cluster_eq split: option.splits if_splits)
  next
    case False
    then have lt: "c < - 3" by simp
    from predict_single_raises [OF cu lt, of now] predict_try_raises [OF cu lt, of now]
    obtain r where r: "predict_single g now s = Inr r" "model_used r = ''error''" "\<not> success r"
      "error r = Some ''list index out of range''" "predict_try g now s = Inl IndexError"
      by fastforce
    show ?thesis
      using r cu rule lt unfolding answer_def
      by (auto simp: choose_cluster_eq split: option.splits if_splits)
  qed
qed

theorem predict_single_model_used_witness:
  "(MODEL_LOADED (model_returning 1)
      \<and> ml_model (model_returning 1) (clean_text (Some (''TEST SCHOOL'' @ '' | '' @ []))) = Some 1
      \<and> (\<exists>r. predict_single (model_returning 1) 0 \<lparr>name = ''TEST SCHOOL'', municipality = []\<rparr> = Inr r
            \<and> model_used r = ''ml'' \<and> success r \<and> cluster_id r = Some 1))
   \<and> (MODEL_LOADED model_raising
      \<and> ml_model model_raising (clean_text (Some (''TEST SCHOOL'' @ '' | '' @ []))) = None
      \<and> (\<exists>r. predict_single model_raising 0 \<lparr>name = ''TEST SCHOOL'', municipality = []\<rparr> = Inr r
            \<and> model_used r = ''rule_based'' \<and> success r \<and> cluster_id r = Some 1))
   \<and> (\<not> MODEL_LOADED no_model
      \<and> (\<exists>r. predict_single no_model 0 \<lparr>name = ''TEST SCHOOL'', municipality = []\<rparr> = Inr r
            \<and> model_used r = ''rule_based'' \<and> success r \<and> cluster_id r = Some 1))
   \<and> (MODEL_LOADED (model_returning (- 4))
      \<and> ml_model (model_returning (- 4)) (clean_text (Some (''TEST SCHOOL'' @ '' | '' @ []))) = Some (- 4)
      \<and> (\<exists>r. predict_single (model_returning (- 4)) 0 \<lparr>name = ''TEST SCHOOL'', municipality = []\<rparr> = Inr r
            \<and> model_used r = ''error'' \<and> \<not> success r
            \<and> error r = Some ''list index out of range''))"
proof -
  have rule: "fst (predict_single_rule \<lparr>name = ''TEST SCHOOL'', municipality = []\<rparr>) = 1"
    by code_simp
  show ?thesis
    using rule
      predict_single_model_used [of "model_returning 1" 0 "\<lparr>name = ''TEST SCHOOL'', municipality = []\<rparr>"]
      predict_single_model_used [of model_raising 0 "\<lparr>name = ''TEST SCHOOL'', municipality = []\<rparr>"]
      predict_single_model_used [of no_model 0 "\<lparr>name = ''TEST SCHOOL'', municipality = []\<rparr>"]
      predict_single_model_used [of "model_returning (- 4)" 0 "\<lparr>name = ''TEST SCHOOL'', municipality = []\<rparr>"]
    by (simp add: model_returning_def model_raising_def no_model_def) blast
qed

text \<open>
  C2, as the claim states it, fails: a loaded model that answers 5 gives a successful
  outcome whose \<open>cluster_id\<close> is 5, named by the fallback branch of
  \<open>get_cluster_name\<close>.
\<close>

theorem predict_single_success_outside_table:
  "predict_single (model_returning 5) 0 \<lparr>name = ''TEST SCHOOL'', municipality = ''BOHOL''\<rparr>
     = Inr \<lparr>school = ''TEST SCHOOL'', municipality = ''BOHOL'', cluster_id = Some 5,
            cluster_name = Some ''Cluster 5'', cluster_color = Some ''#FFBB28'',
            model_used = ''ml'', success = True, timestamp = Some 0, error = None\<rparr>
   \<and> (5 :: int) \<notin> {0, 1, 2}"
  by code_simp

text \<open>
  C2, amended.  \<open>success\<close> is true exactly when \<open>cluster_id\<close>, \<open>cluster_name\<close> and
  \<open>cluster_color\<close> are present, the name and the color being the non-empty values of
  the two lookup helpers at that id.  The id is one of 0, 1, 2 when the rule-based
  classifier produced it; on the ML path it is the model's answer, whatever it is.  A
  successful outcome has no \<open>error\<close>; a failed one has an \<open>error\<close> and none of the three
  cluster fields.
\<close>

theorem predict_single_outcome_shape:
  "\<exists>r. predict_single g now s = Inr r
     \<and> (success r \<longleftrightarrow>
          (\<exists>i nm col. cluster_id r = Some i \<and> cluster_name r = Some nm \<and> cluster_color r = Some col
             \<and> get_cluster_name i = Inr nm \<and> get_cluster_color i = Inr col
             \<and> nm \<noteq> [] \<and> col \<noteq> []))
     \<and> (success r \<and> model_used r = ''rule_based'' \<longrightarrow> cluster_id r \<in> {Some 0, Some 1, Some 2})
     \<and> (success r \<and> model_used r = ''ml'' \<longrightarrow>
          cluster_id r = ml_model g (clean_text (Some (name s @ '' | '' @ School.municipality s))))
     \<and> (success r \<longrightarrow> error r = None)
     \<and> (\<not> success r \<longrightarrow>
          error r \<noteq> None \<and> cluster_id r = None \<and> cluster_name r = None \<and> cluster_color r = None)"
proof -
  obtain c used where cu: "choose_cluster g s = (c, used)"
    by (cases "choose_cluster g s")
  have rule: "fst (predict_single_rule s) \<in> {0, 1, 2}" "snd (predict_single_rule s) = ''rule_based''"
    using predict_single_rule_range [of s] by auto
  show ?thesis
  proof (cases "- 3 \<le> c")
    case True
    from predict_single_ok [OF cu True, of now]
    obtain nm col where r: "get_cluster_name c = Inr nm" "get_cluster_color c = Inr col"
      "predict_single g now s =
             Inr \<lparr>school = or_unknown (name s),
                  municipality = or_unknown (School.municipality s),
                  cluster_id = Some c, cluster_name = Some nm,
                  cluster_color = Some col, model_used = used, success = True,
                  timestamp = Some now, error = None\<rparr>"
      by blast
    have ne: "nm \<noteq> []" "col \<noteq> []"
      using r get_cluster_name_nonempty get_cluster_color_nonempty by blast+
    have id: "used = ''rule_based'' \<longrightarrow> c \<in> {0, 1, 2}"
      "used = ''ml'' \<longrightarrow> Some c = ml_model g (clean_text (Some (name s @ '' | '' @ School.municipality s)))"
      using cu rule by (auto simp: choose_cluster_eq split: option.splits if_splits)
    show ?thesis
      using r ne id by auto
  next
    case False
    then have lt: "c < - 3" by simp
    show ?thesis
      using predict_single_raises [OF cu lt, of now] by simp
  qed
qed

theorem predict_single_outcome_shape_witness:
  "(\<exists>r. predict_single no_model 0 \<lparr>name = ''TEST SCHOOL'', municipality = []\<rparr> = Inr r
      \<and> success r \<and> model_used r = ''rule_based'' \<and> cluster_id r = Some 1
      \<and> cluster_name r = Some ''Clarin Schools'' \<and> cluster_color r = Some ''#00C49F''
      \<and> error r = None)
   \<and> (\<exists>r. predict_single (model_returning 5) 0 \<lparr>name = ''TEST SCHOOL'', municipality = []\<rparr> = Inr r
      \<and> success r \<and> model_used r = ''ml'' \<and> cluster_id r = Some 5 \<and> error r = None)
   \<and> (\<exists>r. predict_single (model_returning (- 4)) 0 \<lparr>name = ''TEST SCHOOL'', municipality = []\<rparr> = Inr r
      \<and> \<not> success r \<and> error r \<noteq> None \<and> cluster_id r = None \<and> cluster_name r = None
      \<and> cluster_color r = None)"
proof -
  have ev: "predict_single no_model 0 \<lparr>name = ''TEST SCHOOL'', municipality = []\<rparr>
     = Inr \<lparr>school = ''TEST SCHOOL'', municipality = ''Unknown'', cluster_id = Some 1,
            cluster_name = Some ''Clarin Schools'', cluster_color = Some ''#00C49F'',
            model_used = ''rule_based'', success = True, timestamp = Some 0, error = None\<rparr>"
    by code_simp
  have ml: "predict_single (model_returning 5) 0 \<lparr>name = ''TEST SCHOOL'', municipality = []\<rparr>
     = Inr \<lparr>school = ''TEST SCHOOL'', municipality = ''Unknown'', cluster_id = Some 5,
            cluster_name = Some ''Cluster 5'', cluster_color = Some ''#FFBB28'',
            model_used = ''ml'', success = True, timestamp = Some 0, error = None\<rparr>"
    by code_simp
  have er: "predict_single (model_returning (- 4)) 0 \<lparr>name = ''TEST SCHOOL'', municipality = []\<rparr>
     = Inr \<lparr>school = ''TEST SCHOOL'', municipality = ''Unknown'', cluster_id = None,
            cluster_name = None, cluster_color = None,
            model_used = ''error'', success = False, timestamp = None,
            error = Some ''list index out of range''\<rparr>"
    by code_simp
  show ?thesis
    using ev ml er
      predict_single_outcome_shape [of no_model 0 "\<lparr>name = ''TEST SCHOOL'', municipality = []\<rparr>"]
      predict_single_outcome_shape [of "model_returning 5" 0 "\<lparr>name = ''TEST SCHOOL'', municipality = []\<rparr>"]
      predict_single_outcome_shape [of "model_returning (- 4)" 0 "\<lparr>name = ''TEST SCHOOL'', municipality = []\<rparr>"]
    by simp
qed

section \<open>The batch endpoint on the empty batch\<close>

text \<open>
  C8.  On the empty batch \<open>get_cluster_batch\<close> returns the error shape with the message
  \<open>"No schools provided"\<close> and \<open>success = False\<close>; it returns neither the normal shape
  (results and summary) nor raises.
\<close>

theorem empty_batch_error_shape:
  "get_cluster_batch g clock [] = Inr (ErrorShape ''No schools provided'' False)
   \<and> (\<forall>rs sm. get_cluster_batch g clock [] \<noteq> Inr (NormalShape rs sm))
   \<and> (\<forall>e. get_cluster_batch g clock [] \<noteq> Inl e)"
  by (simp add: get_cluster_batch_def)

section \<open>The batch loop\<close>

lemma dict_set_keys: "map_of d k = Some v0 \<Longrightarrow> map fst (dict_set d k v) = map fst d"
  by (induction d) (auto split: if_splits)

lemma dict_get_set:
  "map_of d k = Some v0 \<Longrightarrow>
   dict_get (dict_set d k v) k' dflt = (if k' = k then v else dict_get d k' dflt)"
  by (induction d) (auto simp: dict_get_def split: if_splits)

lemma map_of_keys3:
  assumes "map fst d = [0, 1, 2 :: int]"
  shows "map_of d k \<noteq> None \<longleftrightarrow> k \<in> {0, 1, 2}"
proof -
  have "dom (map_of d) = set (map fst d)" by (simp add: dom_map_of_conv_image_fst)
  then show ?thesis using assms by (auto simp: dom_def)
qed

lemma dict_incr_keys3:
  assumes "dict_incr d k = Inr d'" "map fst d = [0, 1, 2]"
  shows "map fst d' = [0, 1, 2] \<and> k \<in> {0, 1, 2}
         \<and> (\<forall>k'. dict_get d' k' 0 = dict_get d k' 0 + (if k' = k then 1 else 0))"
proof -
  from assms(1) obtain v0 where v0: "map_of d k = Some v0" "d' = dict_set d k (v0 + 1)"
    by (auto simp: dict_incr_def split: option.splits)
  have "k \<in> {0, 1, 2}" using map_of_keys3 [OF assms(2), of k] v0 by simp
  moreover have "map fst d' = [0, 1, 2]" using dict_set_keys [OF v0(1)] v0(2) assms(2) by simp
  moreover have "\<forall>k'. dict_get d' k' 0 = dict_get d k' 0 + (if k' = k then 1 else 0)"
    using dict_get_set [OF v0(1)] v0 by (auto simp: dict_get_def)
  ultimately show ?thesis by blast
qed

lemma dict_incr_ok:
  assumes "map fst d = [0, 1, 2]" "k \<in> {0, 1, 2}"
  shows "\<exists>d'. dict_incr d k = Inr d'"
  using map_of_keys3 [OF assms(1), of k] assms(2) by (auto simp: dict_incr_def)

lemma batch_loop_inv:
  assumes "batch_loop g clock i ss st = Inr st'" "map fst (cluster_counts st) = [0, 1, 2]"
  shows "\<exists>news. results st' = results st @ news \<and> length news = length ss
           \<and> map Inr news = map (\<lambda>(j, s). predict_single g (clock j) s) (zip [i ..< i + length ss] ss)
           \<and> map fst (cluster_counts st') = [0, 1, 2]
           \<and> successful st' = successful st + int (length (filter success news))
           \<and> (\<forall>k. dict_get (cluster_counts st') k 0
                  = dict_get (cluster_counts st) k 0
                    + int (length (filter (\<lambda>r. success r \<and> cluster_id r = Some k) news)))
           \<and> (\<forall>r \<in> set news. success r \<longrightarrow> cluster_id r \<in> {Some 0, Some 1, Some 2})"
  using assms
proof (induction ss arbitrary: i st)
  case Nil
  then show ?case by simp
next
  case (Cons s ss)
  from Cons.prems(1) obtain r where r: "predict_single g (clock i) s = Inr r"
    by (auto split: sum.splits)
  define st1 where "st1 = st\<lparr>results := results st @ [r]\<rparr>"
  have upto: "[i ..< i + length (s # ss)] = i # [Suc i ..< Suc i + length ss]"
    by (simp add: upt_rec)
  show ?case
  proof (cases "success r")
    case False
    with Cons.prems r have loop: "batch_loop g clock (Suc i) ss st1 = Inr st'"
      by (simp add: st1_def Let_def)
    have keys: "map fst (cluster_counts st1) = [0, 1, 2]"
      using Cons.prems(2) by (simp add: st1_def)
    from Cons.IH [OF loop keys] obtain news where n:
      "results st' = results st1 @ news" "length news = length ss"
      "map Inr news = map (\<lambda>(j, s). predict_single g (clock j) s) (zip [Suc i ..< Suc i + length ss] ss)"
      "map fst (cluster_counts st') = [0, 1, 2]"
      "successful st' = successful st1 + int (length (filter success news))"
      "\<forall>k. dict_get (cluster_counts st') k 0
                  = dict_get (cluster_counts st1) k 0
                    + int (length (filter (\<lambda>r. success r \<and> cluster_id r = Some k) news))"
      "\<forall>r \<in> set news. success r \<longrightarrow> cluster_id r \<in> {Some 0, Some 1, Some 2}"
      by (elim exE conjE) (rule that; assumption)
    show ?thesis
      apply (rule exI [of _ "r # news"])
      using n False r unfolding upto by (simp add: st1_def)
  next
    case True
    with Cons.prems r obtain k counts where k: "cluster_id r = Some k"
      "dict_incr (cluster_counts st1) k = Inr counts"
      and loop: "batch_loop g clock (Suc i) ss
                   (st1\<lparr>successful := successful st1 + 1, cluster_counts := counts\<rparr>) = Inr st'"
      by (auto simp: st1_def Let_def split: option.splits sum.splits)
    define st2 where "st2 = st1\<lparr>successful := successful st1 + 1, cluster_counts := counts\<rparr>"
    have keys1: "map fst (cluster_counts st1) = [0, 1, 2]"
      using Cons.prems(2) by (simp add: st1_def)
    note inc = dict_incr_keys3 [OF k(2) keys1]
    have keys: "map fst (cluster_counts st2) = [0, 1, 2]"
      using inc by (simp add: st2_def)
    from Cons.IH [OF loop [folded st2_def] keys] obtain news where n:
      "results st' = results st2 @ news" "length news = length ss"
      "map Inr news = map (\<lambda>(j, s). predict_single g (clock j) s) (zip [Suc i ..< Suc i + length ss] ss)"
      "map fst (cluster_counts st') = [0, 1, 2]"
      "successful st' = successful st2 + int (length (filter success news))"
      "\<forall>k. dict_get (cluster_counts st') k 0
                  = dict_get (cluster_counts st2) k 0
                    + int (length (filter (\<lambda>r. success r \<and> cluster_id r = Some k) news))"
      "\<forall>r \<in> set news. success r \<longrightarrow> cluster_id r \<in> {Some 0, Some 1, Some 2}"
      by (elim exE conjE) (rule that; assumption)
    show ?thesis
      apply (rule exI [of _ "r # news"])
      using n True r k inc unfolding upto by (auto simp: st1_def st2_def)
  qed
qed

lemma cluster_percentage_value:
  "cluster_percentage counts n i = Inr (percentage_value counts n i)"
  by (simp add: cluster_percentage_def percentage_value_def true_div_def Let_def)

lemma cluster_percentages:
  "collect (map (cluster_percentage counts n) [0, 1, 2]) =
     Inr [percentage_value counts n 0, percentage_value counts n 1, percentage_value counts n 2]"
  by (simp add: cluster_percentage_value)

lemma summary_entries:
  "collect (map (summary_entry counts (zip [0, 1, 2] [p0, p1, p2])) [0, 1, 2]) =
     Inr [\<lparr>entry_id = 0, entry_name = ''Inabanga  Schools'', count = dict_get counts 0 0,
            percentage = p0, color = ''#0088FE''\<rparr>,
          \<lparr>entry_id = 1, entry_name = ''Clarin Schools'', count = dict_get counts 1 0,
            percentage = p1, color = ''#00C49F''\<rparr>,
          \<lparr>entry_id = 2, entry_name = ''Tubigon  Schools'', count = dict_get counts 2 0,
            percentage = p2, color = ''#FFBB28''\<rparr>]"
  by (simp add: summary_entry_def get_cluster_name_table get_cluster_color_table dict_get_def)

lemma find_dominant3:
  "find_dominant [(0, a), (1, b), (2, c)] =
     (if a < b then (if b < c then 2 else 1) else (if a < c then 2 else 0))"
  by (simp add: find_dominant_def)

lemma keys3_shape:
  assumes "map fst d = [0, 1, 2 :: int]"
  shows "d = [(0, dict_get d 0 0), (1, dict_get d 1 0), (2, dict_get d 2 0)]"
proof -
  from assms obtain a b c where "d = [(0, a), (1, b), (2, c)]"
    by (auto simp: map_eq_Cons_conv)
  then show ?thesis by (simp add: dict_get_def)
qed

lemma find_dominant_range:
  assumes "map fst d = [0, 1, 2]"
  shows "find_dominant d \<in> {0, 1, 2}"
  using find_dominant3 [of "dict_get d 0 0" "dict_get d 1 0" "dict_get d 2 0"]
    keys3_shape [OF assms] by (auto split: if_splits)

lemma make_summary_eq:
  assumes "map fst (cluster_counts st) = [0, 1, 2]"
  shows "\<exists>dominant_name. get_cluster_name (find_dominant (cluster_counts st)) = Inr dominant_name \<and>
     make_summary g st =
       Inr \<lparr>total_schools = int (length (results st)),
            successful_predictions = successful st,
            failed_predictions = int (length (results st)) - successful st,
            summary_clusters =
              [\<lparr>entry_id = 0, entry_name = ''Inabanga  Schools'',
                 count = dict_get (cluster_counts st) 0 0,
                 percentage = percentage_value (cluster_counts st) (successful st) 0,
                 color = ''#0088FE''\<rparr>,
               \<lparr>entry_id = 1, entry_name = ''Clarin Schools'',
                 count = dict_get (cluster_counts st) 1 0,
                 percentage = percentage_value (cluster_counts st) (successful st) 1,
                 color = ''#00C49F''\<rparr>,
               \<lparr>entry_id = 2, entry_name = ''Tubigon  Schools'',
                 count = dict_get (cluster_counts st) 2 0,
                 percentage = percentage_value (cluster_counts st) (successful st) 2,
                 color = ''#FFBB28''\<rparr>],
            dominant_cluster = find_dominant (cluster_counts st),
            dominant_cluster_name = dominant_name,
            summary_model_used = (if MODEL_LOADED g then ''ml'' else ''rule_based'')\<rparr>"
proof -
  have "- 3 \<le> find_dominant (cluster_counts st)"
    using find_dominant_range [OF assms] by auto
  then obtain nm where "get_cluster_name (find_dominant (cluster_counts st)) = Inr nm"
    using get_cluster_name_ok by blast
  then show ?thesis
    unfolding make_summary_def Let_def cluster_percentages sum.case summary_entries by simp
qed

text \<open>What a normal response of the batch endpoint is made of.\<close>

lemma get_cluster_batch_normal:
  assumes "get_cluster_batch g clock schools = Inr (NormalShape rs sm)"
  shows "\<exists>st. schools \<noteq> []
     \<and> batch_loop g clock 0 schools
         \<lparr>results = [], cluster_counts = [(0, 0), (1, 0), (2, 0)], successful = 0\<rparr> = Inr st
     \<and> make_summary g st = Inr sm \<and> rs = results st
     \<and> map fst (cluster_counts st) = [0, 1, 2]
     \<and> length rs = length schools
     \<and> map Inr rs = map (\<lambda>(j, s). predict_single g (clock j) s) (zip [0 ..< length schools] schools)
     \<and> successful st = int (length (filter success rs))
     \<and> (\<forall>k. dict_get (cluster_counts st) k 0
            = int (length (filter (\<lambda>r. success r \<and> cluster_id r = Some k) rs)))
     \<and> (\<forall>r \<in> set rs. success r \<longrightarrow> cluster_id r \<in> {Some 0, Some 1, Some 2})"
proof -
  let ?st0 = "\<lparr>results = [], cluster_counts = [(0, 0), (1, 0), (2, 0)], successful = 0\<rparr>"
  from assms have ne: "schools \<noteq> []"
    by (auto simp: get_cluster_batch_def split: if_splits)
  with assms obtain st where st: "batch_loop g clock 0 schools ?st0 = Inr st"
    "make_summary g st = Inr sm" "rs = results st"
    by (auto simp: get_cluster_batch_def split: sum.splits)
  have k0: "map fst (cluster_counts ?st0) = [0, 1, 2]" by simp
  have g0: "dict_get (cluster_counts ?st0) k 0 = 0" for k
    by (simp add: dict_get_def)
  from batch_loop_inv [OF st(1) k0] g0 st ne show ?thesis
    by (auto simp: )
qed

lemma predict_single_named:
  assumes "predict_single g now s = Inr r" "cluster_id r = Some i"
  shows "\<exists>nm col. cluster_name r = Some nm \<and> cluster_color r = Some col
           \<and> get_cluster_name i = Inr nm \<and> get_cluster_color i = Inr col"
proof -
  obtain c used where cu: "choose_cluster g s = (c, used)"
    by (cases "choose_cluster g s")
  show ?thesis
  proof (cases "- 3 \<le> c")
    case True
    from predict_single_ok [OF cu True, of now] assms show ?thesis by auto
  next
    case False
    then have "c < - 3" by simp
    from predict_single_raises [OF cu this, of now] assms show ?thesis by auto
  qed
qed

lemma batch_results_are_predictions:
  assumes "get_cluster_batch g clock schools = Inr (NormalShape rs sm)" "r \<in> set rs"
  shows "\<exists>j s. s \<in> set schools \<and> predict_single g (clock j) s = Inr r"
proof -
  from get_cluster_batch_normal [OF assms(1)]
  have eq: "map Inr rs = map (\<lambda>(j, s). predict_single g (clock j) s) (zip [0 ..< length schools] schools)"
    by blast
  from assms(2) have "(Inr r :: py_error + outcome) \<in> set (map Inr rs)" by simp
  then have "Inr r \<in> set (map (\<lambda>(j, s). predict_single g (clock j) s) (zip [0 ..< length schools] schools))"
    using eq by simp
  then obtain j s where "(j, s) \<in> set (zip [0 ..< length schools] schools)"
    "predict_single g (clock j) s = Inr r"
    by auto
  then show ?thesis by (auto dest: set_zip_rightD)
qed

lemma health_check_eq:
  "health_check g =
     Inr \<lparr>status = (if MODEL_LOADED g then ''healthy'' else ''degraded''),
          model_loaded = MODEL_LOADED g,
          health_clusters =
            [\<lparr>info_id = 0, info_name = ''Inabanga  Schools'', info_color = ''#0088FE''\<rparr>,
             \<lparr>info_id = 1, info_name = ''Clarin Schools'', info_color = ''#00C49F''\<rparr>,
             \<lparr>info_id = 2, info_name = ''Tubigon  Schools'', info_color = ''#FFBB28''\<rparr>]\<rparr>"
  by (simp add: health_check_def table_entry_def get_cluster_name_table get_cluster_color_table)

section \<open>The cluster table and its consumers\<close>

text \<open>
  C9, as the claim states it, fails: the names of clusters 0 and 2 in the table are
  written with two spaces, \<open>"Inabanga  Schools"\<close> and \<open>"Tubigon  Schools"\<close>.
\<close>

theorem cluster_name_not_single_spaced:
  "get_cluster_name 0 \<noteq> Inr ''Inabanga Schools'' \<and> get_cluster_name 2 \<noteq> Inr ''Tubigon Schools''"
  by (simp add: get_cluster_name_table)

text \<open>
  C9, amended.  The table maps 0 to \<open>"Inabanga  Schools"\<close> and \<open>"#0088FE"\<close>, 1 to
  \<open>"Clarin Schools"\<close> and \<open>"#00C49F"\<close>, 2 to \<open>"Tubigon  Schools"\<close> and \<open>"#FFBB28"\<close>, and
  every consumer reads it through the two lookup helpers: the health response lists
  these three entries, a prediction outcome with a cluster id among 0, 1, 2 carries
  that id's name and color, and so do the three entries of a batch summary, its
  dominant cluster name and each of its results.
\<close>

theorem cluster_table_shared:
  "(get_cluster_name 0 = Inr ''Inabanga  Schools'' \<and> get_cluster_color 0 = Inr ''#0088FE''
    \<and> get_cluster_name 1 = Inr ''Clarin Schools'' \<and> get_cluster_color 1 = Inr ''#00C49F''
    \<and> get_cluster_name 2 = Inr ''Tubigon  Schools'' \<and> get_cluster_color 2 = Inr ''#FFBB28'')
   \<and> (\<exists>h. health_check g = Inr h
        \<and> map (\<lambda>c. (info_id c, info_name c, info_color c)) (health_clusters h)
            = [(0, ''Inabanga  Schools'', ''#0088FE''), (1, ''Clarin Schools'', ''#00C49F''),
               (2, ''Tubigon  Schools'', ''#FFBB28'')])
   \<and> (\<forall>r i. predict_single g now s = Inr r \<and> cluster_id r = Some i \<and> i \<in> {0, 1, 2}
        \<longrightarrow> cluster_name r = Some (clusters ! nat i) \<and> cluster_color r = Some (colors ! nat i))
   \<and> (\<forall>rs sm. get_cluster_batch g clock schools = Inr (NormalShape rs sm)
        \<longrightarrow> map (\<lambda>e. (entry_id e, entry_name e, color e)) (summary_clusters sm)
              = [(0, ''Inabanga  Schools'', ''#0088FE''), (1, ''Clarin Schools'', ''#00C49F''),
                 (2, ''Tubigon  Schools'', ''#FFBB28'')]
            \<and> dominant_cluster sm \<in> {0, 1, 2}
            \<and> dominant_cluster_name sm = clusters ! nat (dominant_cluster sm)
            \<and> (\<forall>r \<in> set rs. \<forall>i. cluster_id r = Some i \<and> i \<in> {0, 1, 2}
                 \<longrightarrow> cluster_name r = Some (clusters ! nat i)
                     \<and> cluster_color r = Some (colors ! nat i)))"
proof -
  have tab: "i \<in> {0, 1, 2} \<Longrightarrow> get_cluster_name i = Inr (clusters ! nat i)
                \<and> get_cluster_color i = Inr (colors ! nat i)" for i
    by (auto simp: get_cluster_name_table get_cluster_color_table clusters_def colors_def)
  have single: "cluster_name r = Some (clusters ! nat i) \<and> cluster_color r = Some (colors ! nat i)"
    if "predict_single g t s' = Inr r" "cluster_id r = Some i" "i \<in> {0, 1, 2}" for r i t s'
    using predict_single_named [OF that(1,2)] tab [OF that(3)] by auto
  have batch: "map (\<lambda>e. (entry_id e, entry_name e, color e)) (summary_clusters sm)
              = [(0, ''Inabanga  Schools'', ''#0088FE''), (1, ''Clarin Schools'', ''#00C49F''),
                 (2, ''Tubigon  Schools'', ''#FFBB28'')]
            \<and> dominant_cluster sm \<in> {0, 1, 2}
            \<and> dominant_cluster_name sm = clusters ! nat (dominant_cluster sm)
            \<and> (\<forall>r \<in> set rs. \<forall>i. cluster_id r = Some i \<and> i \<in> {0, 1, 2}
                 \<longrightarrow> cluster_name r = Some (clusters ! nat i)
                     \<and> cluster_color r = Some (colors ! nat i))"
    if b: "get_cluster_batch g clock schools = Inr (NormalShape rs sm)" for rs sm
  proof -
    from get_cluster_batch_normal [OF b] obtain st where st:
      "make_summary g st = Inr sm" "map fst (cluster_counts st) = [0, 1, 2]"
      by (elim exE conjE) (rule that; assumption)
    from make_summary_eq [OF st(2), of g] st(1)
    have a: "map (\<lambda>e. (entry_id e, entry_name e, color e)) (summary_clusters sm)
              = [(0, ''Inabanga  Schools'', ''#0088FE''), (1, ''Clarin Schools'', ''#00C49F''),
                 (2, ''Tubigon  Schools'', ''#FFBB28'')]"
      and d: "dominant_cluster sm = find_dominant (cluster_counts st)"
      and n: "get_cluster_name (dominant_cluster sm) = Inr (dominant_cluster_name sm)"
      by auto
    have dr: "dominant_cluster sm \<in> {0, 1, 2}"
      using d find_dominant_range [OF st(2)] by simp
    have dn: "dominant_cluster_name sm = clusters ! nat (dominant_cluster sm)"
      using tab [OF dr] n by simp
    have rs: "\<forall>r \<in> set rs. \<forall>i. cluster_id r = Some i \<and> i \<in> {0, 1, 2}
                 \<longrightarrow> cluster_name r = Some (clusters ! nat i)
                     \<and> cluster_color r = Some (colors ! nat i)"
      using batch_results_are_predictions [OF b] single by blast
    show ?thesis using a dr dn rs by blast
  qed
  have one: "\<forall>r i. predict_single g now s = Inr r \<and> cluster_id r = Some i \<and> i \<in> {0, 1, 2}
        \<longrightarrow> cluster_name r = Some (clusters ! nat i) \<and> cluster_color r = Some (colors ! nat i)"
    using single by blast
  have many: "\<forall>rs sm. get_cluster_batch g clock schools = Inr (NormalShape rs sm)
        \<longrightarrow> map (\<lambda>e. (entry_id e, entry_name e, color e)) (summary_clusters sm)
              = [(0, ''Inabanga  Schools'', ''#0088FE''), (1, ''Clarin Schools'', ''#00C49F''),
                 (2, ''Tubigon  Schools'', ''#FFBB28'')]
            \<and> dominant_cluster sm \<in> {0, 1, 2}
            \<and> dominant_cluster_name sm = clusters ! nat (dominant_cluster sm)
            \<and> (\<forall>r \<in> set rs. \<forall>i. cluster_id r = Some i \<and> i \<in> {0, 1, 2}
                 \<longrightarrow> cluster_name r = Some (clusters ! nat i)
                     \<and> cluster_color r = Some (colors ! nat i))"
    using batch by blast
  have health: "\<exists>h. health_check g = Inr h
        \<and> map (\<lambda>c. (info_id c, info_name c, info_color c)) (health_clusters h)
            = [(0, ''Inabanga  Schools'', ''#0088FE''), (1, ''Clarin Schools'', ''#00C49F''),
               (2, ''Tubigon  Schools'', ''#FFBB28'')]"
    by (simp add: health_check_eq)
  show ?thesis
    using one many health get_cluster_name_table get_cluster_color_table by blast
qed

theorem cluster_table_shared_witness:
  "(\<exists>r. predict_single no_model 0 \<lparr>name = ''TUBIGON ELEM'', municipality = []\<rparr> = Inr r
       \<and> cluster_id r = Some 2 \<and> cluster_name r = Some ''Tubigon  Schools''
       \<and> cluster_color r = Some ''#FFBB28'')
   \<and> (\<exists>rs sm. get_cluster_batch no_model noon [\<lparr>name = ''TUBIGON ELEM'', municipality = []\<rparr>]
                = Inr (NormalShape rs sm)
       \<and> dominant_cluster sm = 2 \<and> dominant_cluster_name sm = ''Tubigon  Schools''
       \<and> map (\<lambda>e. (entry_id e, entry_name e, color e)) (summary_clusters sm)
              = [(0, ''Inabanga  Schools'', ''#0088FE''), (1, ''Clarin Schools'', ''#00C49F''),
                 (2, ''Tubigon  Schools'', ''#FFBB28'')])"
proof -
  let ?s = "\<lparr>name = ''TUBIGON ELEM'', municipality = []\<rparr>"
  have "case predict_single no_model 0 ?s of Inr r \<Rightarrow> cluster_id r = Some 2 | Inl e \<Rightarrow> False"
    by code_simp
  then obtain r where r: "predict_single no_model 0 ?s = Inr r" "cluster_id r = Some 2"
    by (auto split: sum.splits)
  have "case get_cluster_batch no_model noon [?s] of
          Inr (NormalShape rs sm) \<Rightarrow> dominant_cluster sm = 2 | _ \<Rightarrow> False"
    by code_simp
  then obtain rs sm where b: "get_cluster_batch no_model noon [?s] = Inr (NormalShape rs sm)"
    "dominant_cluster sm = 2"
    by (auto split: sum.splits batch_response.splits)
  have tab: "clusters ! nat 2 = ''Tubigon  Schools''" "colors ! nat 2 = ''#FFBB28''"
    by (simp_all add: clusters_def colors_def)
  from cluster_table_shared [of no_model 0 ?s noon "[?s]"] r b tab
  show ?thesis by auto
qed

lemma batch_summary_facts:
  assumes "get_cluster_batch g clock schools = Inr (NormalShape rs sm)"
  defines "counts \<equiv> [(0, tally rs 0), (1, tally rs 1), (2, tally rs 2)]"
  shows "length rs = length schools"
    and "total_schools sm = int (length schools)"
    and "successful_predictions sm = int (length (filter success rs))"
    and "failed_predictions sm = total_schools sm - successful_predictions sm"
    and "dominant_cluster sm = find_dominant counts"
    and "map (\<lambda>e. (entry_id e, count e, percentage e)) (summary_clusters sm) =
          [(0, tally rs 0, percentage_value counts (successful_predictions sm) 0),
           (1, tally rs 1, percentage_value counts (successful_predictions sm) 1),
           (2, tally rs 2, percentage_value counts (successful_predictions sm) 2)]"
    and "\<forall>r \<in> set rs. success r \<longrightarrow> cluster_id r \<in> {Some 0, Some 1, Some 2}"
proof -
  from get_cluster_batch_normal [OF assms(1)] obtain st where st:
    "make_summary g st = Inr sm" "rs = results st" "map fst (cluster_counts st) = [0, 1, 2]"
    "length rs = length schools" "successful st = int (length (filter success rs))"
    "\<forall>k. dict_get (cluster_counts st) k 0
            = int (length (filter (\<lambda>r. success r \<and> cluster_id r = Some k) rs))"
    "\<forall>r \<in> set rs. success r \<longrightarrow> cluster_id r \<in> {Some 0, Some 1, Some 2}"
    by (elim exE conjE) (rule that; assumption)
  have shape: "cluster_counts st = counts"
    using keys3_shape [OF st(3)] st(6) by (simp add: counts_def tally_def)
  have get: "dict_get counts 0 0 = tally rs 0" "dict_get counts 1 0 = tally rs 1"
    "dict_get counts 2 0 = tally rs 2"
    by (simp_all add: counts_def dict_get_def)
  from make_summary_eq [OF st(3), of g] st(1)
  have sm: "total_schools sm = int (length (results st))"
    "successful_predictions sm = successful st"
    "failed_predictions sm = int (length (results st)) - successful st"
    "dominant_cluster sm = find_dominant (cluster_counts st)"
    "map (\<lambda>e. (entry_id e, count e, percentage e)) (summary_clusters sm) =
          [(0, dict_get (cluster_counts st) 0 0, percentage_value (cluster_counts st) (successful st) 0),
           (1, dict_get (cluster_counts st) 1 0, percentage_value (cluster_counts st) (successful st) 1),
           (2, dict_get (cluster_counts st) 2 0, percentage_value (cluster_counts st) (successful st) 2)]"
    by auto
  show "length rs = length schools" by (rule st(4))
  show "total_schools sm = int (length schools)" using sm(1) st(2,4) by simp
  show "successful_predictions sm = int (length (filter success rs))" using sm(2) st(5) by simp
  show "failed_predictions sm = total_schools sm - successful_predictions sm"
    using sm(1,2,3) by simp
  show "dominant_cluster sm = find_dominant counts" using sm(4) shape by simp
  show "map (\<lambda>e. (entry_id e, count e, percentage e)) (summary_clusters sm) =
          [(0, tally rs 0, percentage_value counts (successful_predictions sm) 0),
           (1, tally rs 1, percentage_value counts (successful_predictions sm) 1),
           (2, tally rs 2, percentage_value counts (successful_predictions sm) 2)]"
    using sm(5) sm(2) get unfolding shape by simp
  show "\<forall>r \<in> set rs. success r \<longrightarrow> cluster_id r \<in> {Some 0, Some 1, Some 2}" by (rule st(7))
qed

text \<open>When the endpoint returns its normal response.\<close>

lemma predict_single_total: "\<exists>r. predict_single g now s = Inr r"
  by (simp add: predict_single_def split: sum.splits)

lemma choose_cluster_in_table:
  assumes "\<not> MODEL_LOADED g \<or> (\<forall>t c. ml_model g t = Some c \<longrightarrow> c \<in> {0, 1, 2} \<or> c < - 3)"
  shows "fst (choose_cluster g s) \<in> {0, 1, 2} \<or> fst (choose_cluster g s) < - 3"
  using assms predict_single_rule_range [of s]
  by (auto simp: choose_cluster_eq split: option.splits)

lemma predict_single_in_table:
  assumes "\<not> MODEL_LOADED g \<or> (\<forall>t c. ml_model g t = Some c \<longrightarrow> c \<in> {0, 1, 2} \<or> c < - 3)"
    and "predict_single g now s = Inr r" "success r"
  shows "cluster_id r \<in> {Some 0, Some 1, Some 2}"
proof -
  obtain c used where cu: "choose_cluster g s = (c, used)"
    by (cases "choose_cluster g s")
  show ?thesis
  proof (cases "- 3 \<le> c")
    case True
    then have "c \<in> {0, 1, 2}" using choose_cluster_in_table [OF assms(1), of s] cu by auto
    with predict_single_ok [OF cu True, of now] assms(2) show ?thesis by auto
  next
    case False
    then have "c < - 3" by simp
    from predict_single_raises [OF cu this, of now] assms(2,3) show ?thesis by auto
  qed
qed

lemma batch_loop_total:
  assumes "\<not> MODEL_LOADED g \<or> (\<forall>t c. ml_model g t = Some c \<longrightarrow> c \<in> {0, 1, 2} \<or> c < - 3)"
    and "map fst (cluster_counts st) = [0, 1, 2]"
  shows "\<exists>st'. batch_loop g clock i ss st = Inr st'"
  using assms(2)
proof (induction ss arbitrary: i st)
  case Nil
  then show ?case by simp
next
  case (Cons s ss)
  obtain r where r: "predict_single g (clock i) s = Inr r"
    using predict_single_total by blast
  show ?case
  proof (cases "success r")
    case False
    have "map fst (cluster_counts (st\<lparr>results := results st @ [r]\<rparr>)) = [0, 1, 2]"
      using Cons.prems by simp
    from Cons.IH [OF this, of "Suc i"] r False show ?thesis by (simp add: Let_def)
  next
    case True
    from predict_single_in_table [OF assms(1) r True]
    obtain k where k: "cluster_id r = Some k" "k \<in> {0, 1, 2}" by auto
    from dict_incr_ok [OF Cons.prems k(2)] obtain counts where
      c: "dict_incr (cluster_counts st) k = Inr counts" by blast
    have "map fst counts = [0, 1, 2]" using dict_incr_keys3 [OF c Cons.prems] by simp
    then have "map fst (cluster_counts
        (st\<lparr>results := results st @ [r], successful := successful st + 1,
           cluster_counts := counts\<rparr>)) = [0, 1, 2]"
      by simp
    from Cons.IH [OF this, of "Suc i"] r True k c show ?thesis by (simp add: Let_def)
  qed
qed

lemma get_cluster_batch_returns:
  assumes "\<not> MODEL_LOADED g \<or> (\<forall>t c. ml_model g t = Some c \<longrightarrow> c \<in> {0, 1, 2} \<or> c < - 3)"
    and "schools \<noteq> []"
  shows "\<exists>rs sm. get_cluster_batch g clock schools = Inr (NormalShape rs sm)"
proof -
  let ?st0 = "\<lparr>results = [], cluster_counts = [(0, 0), (1, 0), (2, 0)], successful = 0\<rparr>"
  have k0: "map fst (cluster_counts ?st0) = [0, 1, 2]" by simp
  from batch_loop_total [OF assms(1) k0] obtain st where
    st: "batch_loop g clock 0 schools ?st0 = Inr st" by blast
  have "map fst (cluster_counts st) = [0, 1, 2]"
    using batch_loop_inv [OF st k0] by blast
  from make_summary_eq [OF this, of g] obtain sm where "make_summary g st = Inr sm" by blast
  with st assms(2) show ?thesis by (simp add: get_cluster_batch_def)
qed

section \<open>The dominant cluster\<close>



section \<open>The replacement sequence of the normalizer\<close>

lemma replace_untouched:
  "\<not> sublist old t \<Longrightarrow> replace old new t = t"
proof (induction t)
  case Nil
  then show ?case by auto
next
  case (Cons c cs)
  from Cons.prems have "old \<noteq> []" by auto
  moreover from Cons.prems have "\<not> prefix old (c # cs)" "\<not> sublist old cs"
    by (auto simp: sublist_Cons_right)
  ultimately show ?case using Cons.IH by simp
qed

lemma replace_match:
  "old \<noteq> [] \<Longrightarrow> prefix old (c # cs) \<Longrightarrow>
   replace old new (c # cs) = new @ replace old new (drop (length old) (c # cs))"
  by simp

lemma replace_no_match:
  "old \<noteq> [] \<Longrightarrow> \<not> prefix old (c # cs) \<Longrightarrow> replace old new (c # cs) = c # replace old new cs"
  by simp

lemma prefix_replace_untouched:
  "old \<noteq> [] \<Longrightarrow> new \<noteq> [] \<Longrightarrow> hd new \<notin> set p \<Longrightarrow> prefix p (replace old new t) \<Longrightarrow> prefix p t"
proof (induction old new t arbitrary: p rule: replace.induct)
  case (1 old new)
  then show ?case by simp
next
  case (2 old new c cs)
  show ?case
  proof (cases p)
    case Nil
    then show ?thesis by simp
  next
    case (Cons x p')
    show ?thesis
    proof (cases "prefix old (c # cs)")
      case True
      have "replace old new (c # cs) = new @ replace old new (drop (length old) (c # cs))"
        using replace_match [OF "2.prems"(1) True] .
      with "2.prems"(4) Cons have "prefix (x # p') (new @ replace old new (drop (length old) (c # cs)))"
        by simp
      then have "x = hd new" using "2.prems"(2) by (cases new) auto
      with "2.prems"(3) Cons show ?thesis by simp
    next
      case False
      have "replace old new (c # cs) = c # replace old new cs"
        using replace_no_match [OF "2.prems"(1) False] .
      with "2.prems"(4) Cons have xc: "x = c" and pre: "prefix p' (replace old new cs)" by auto
      have "hd new \<notin> set p'" using "2.prems"(3) Cons by simp
      from "2.IH"(3) [OF "2.prems"(1) False "2.prems"(1,2) this pre]
      show ?thesis using xc Cons by simp
    qed
  qed
qed

lemma sublist_drop_trans: "sublist p (drop n t) \<Longrightarrow> sublist p t"
  using sublist_drop sublist_order.order_trans by blast

lemma replace_no_new_occurrence:
  "old \<noteq> [] \<Longrightarrow> new \<noteq> [] \<Longrightarrow> p \<noteq> [] \<Longrightarrow> set p \<inter> set new = {} \<Longrightarrow>
   \<not> sublist p t \<Longrightarrow> \<not> sublist p (replace old new t)"
proof (induction old new t rule: replace.induct)
  case (1 old new)
  then show ?case by simp
next
  case (2 old new c cs)
  note ne = "2.prems"(1) and nn = "2.prems"(2) and pn = "2.prems"(3)
    and disj = "2.prems"(4) and nsub = "2.prems"(5)
  show ?case
  proof (cases "prefix old (c # cs)")
    case True
    define r where "r = replace old new (drop (length old) (c # cs))"
    have eq: "replace old new (c # cs) = new @ r"
      unfolding r_def using replace_match [OF ne True] .
    have "\<not> sublist p (drop (length old) (c # cs))"
      using nsub sublist_drop_trans by blast
    from "2.IH"(2) [OF ne True ne nn pn disj this]
    have ih: "\<not> sublist p r" unfolding r_def .
    have "\<not> sublist p (new @ r)"
    proof
      assume "sublist p (new @ r)"
      then consider "sublist p new" | "sublist p r"
        | p1 p2 where "p = p1 @ p2" "suffix p1 new" "prefix p2 r"
        unfolding sublist_append by blast
      then show False
      proof cases
        case 1
        then have "set p \<subseteq> set new" by (rule set_mono_sublist)
        with pn disj show False by (cases p) auto
      next
        case 2
        with ih show False by simp
      next
        case 3
        show False
        proof (cases p1)
          case Nil
          with 3 have "sublist p r" by auto
          with ih show False by simp
        next
          case (Cons x xs)
          with 3(2) have "x \<in> set new" using set_mono_suffix by fastforce
          moreover from Cons 3(1) have "x \<in> set p" by simp
          ultimately show False using disj by auto
        qed
      qed
    qed
    then show ?thesis using eq by simp
  next
    case False
    define r where "r = replace old new cs"
    have eq: "replace old new (c # cs) = c # r"
      unfolding r_def using replace_no_match [OF ne False] .
    from nsub have ns: "\<not> sublist p cs" "\<not> prefix p (c # cs)"
      by (auto simp: sublist_Cons_right)
    from "2.IH"(3) [OF ne False ne nn pn disj ns(1)]
    have ih: "\<not> sublist p r" unfolding r_def .
    have "\<not> prefix p (c # r)"
    proof
      assume pre: "prefix p (c # r)"
      from pn obtain x p' where p: "p = x # p'" by (cases p) auto
      with pre have xc: "x = c" and pre': "prefix p' (replace old new cs)"
        by (auto simp: r_def)
      have "hd new \<in> set new" using nn by simp
      then have "hd new \<notin> set p'" using disj p by auto
      from prefix_replace_untouched [OF ne nn this pre'] have "prefix p' cs" .
      with xc p ns(2) show False by simp
    qed
    with ih show ?thesis unfolding eq by (simp add: sublist_Cons_right)
  qed
qed

lemma replace_school_no_school:
  "old = ''school'' \<Longrightarrow> new = ''sch'' \<Longrightarrow> \<not> sublist ''schoolool'' t \<Longrightarrow>
   \<not> sublist ''school'' (replace old new t)"
proof (induction old new t rule: replace.induct)
  case (1 old new)
  then show ?case by simp
next
  case (2 old new c cs)
  note od = "2.prems"(1) and nd = "2.prems"(2) and nsub = "2.prems"(3)
  have ne: "old \<noteq> []" and nn: "new \<noteq> []" using od nd by auto
  show ?case
  proof (cases "prefix old (c # cs)")
    case True
    define rest where "rest = drop (length old) (c # cs)"
    define r where "r = replace old new rest"
    have eq: "replace old new (c # cs) = new @ r"
      unfolding r_def rest_def using replace_match [OF ne True] .
    have t: "c # cs = old @ rest"
      using True unfolding rest_def by (metis append_eq_conv_conj prefixE)
    have "\<not> sublist ''schoolool'' rest"
      using nsub sublist_drop_trans unfolding rest_def by blast
    from "2.IH"(2) [OF ne True od nd this [unfolded rest_def]]
    have ih: "\<not> sublist ''school'' r" unfolding r_def rest_def .
    have nopre: "\<not> prefix ''ool'' r"
    proof
      assume "prefix ''ool'' r"
      moreover have "hd new \<notin> set ''ool''" using nd by simp
      ultimately have "prefix ''ool'' rest"
        unfolding r_def using prefix_replace_untouched [OF ne nn] by blast
      then have "prefix (old @ ''ool'') (old @ rest)" by simp
      then have "sublist (old @ ''ool'') (c # cs)" using t by auto
      then show False using nsub od by simp
    qed
    have "\<not> sublist ''school'' (''sch'' @ r)"
      using ih nopre by (simp add: sublist_Cons_right)
    then show ?thesis using eq nd by simp
  next
    case False
    define r where "r = replace old new cs"
    have eq: "replace old new (c # cs) = c # r"
      unfolding r_def using replace_no_match [OF ne False] .
    from nsub have ns: "\<not> sublist ''schoolool'' cs"
      by (auto simp: sublist_Cons_right)
    from "2.IH"(3) [OF ne False od nd ns]
    have ih: "\<not> sublist ''school'' r" unfolding r_def .
    have "\<not> prefix ''school'' (c # r)"
    proof
      assume "prefix ''school'' (c # r)"
      then have c: "c = CHR ''s''" and pre: "prefix ''chool'' (replace old new cs)"
        by (auto simp: r_def)
      have "hd new \<notin> set ''chool''" using nd by simp
      from prefix_replace_untouched [OF ne nn this pre] have "prefix ''chool'' cs" .
      then have "prefix ''school'' (c # cs)" using c by simp
      then show False using False od by simp
    qed
    with ih show ?thesis unfolding eq by (simp add: sublist_Cons_right)
  qed
qed

text \<open>
  C6, as the claim states it, fails: on \<open>"highschoolool"\<close> the first replacement finds
  nothing, the third one turns \<open>"school" + "ool"\<close> into \<open>"sch" + "ool"\<close>, that is
  \<open>"highschool"\<close>, and the final replacement rewrites it.
\<close>

theorem final_replacement_fires_alone:
  "\<not> sublist ''high school'' ''highschoolool''
   \<and> replace ''high school'' ''highschool'' ''highschoolool'' = ''highschoolool''
   \<and> replace ''school'' ''sch'' (replace ''national'' ''nat'' ''highschoolool'') = ''highschool''
   \<and> replace ''highschool'' ''highsch'' ''highschool'' = ''highsch''
   \<and> abbreviate ''highschoolool'' = ''highsch''
   \<and> clean_text (Some ''highschoolool'') = ''highsch''"
  by code_simp

text \<open>
  C6, amended.  When the text contains neither \<open>"high school"\<close> (the first replacement
  does not fire) nor \<open>"schoolool"\<close>, the first replacement leaves it as it is, the text
  after the third replacement contains no \<open>"school"\<close>, and the final replacement
  changes nothing.
\<close>

theorem final_replacement_noop:
  assumes "\<not> sublist ''high school'' t" and "\<not> sublist ''schoolool'' t"
  shows "replace ''high school'' ''highschool'' t = t
     \<and> \<not> sublist ''school'' (replace ''school'' ''sch'' (replace ''national'' ''nat'' t))
     \<and> replace ''highschool'' ''highsch'' (replace ''school'' ''sch'' (replace ''national'' ''nat'' t))
         = replace ''school'' ''sch'' (replace ''national'' ''nat'' t)
     \<and> abbreviate t = replace ''school'' ''sch'' (replace ''national'' ''nat'' t)"
proof -
  let ?t2 = "replace ''national'' ''nat'' t"
  let ?t3 = "replace ''school'' ''sch'' ?t2"
  have first: "replace ''high school'' ''highschool'' t = t"
    using assms(1) by (rule replace_untouched)
  have "\<not> sublist ''schoolool'' ?t2"
    using assms(2) by (intro replace_no_new_occurrence) auto
  then have third: "\<not> sublist ''school'' ?t3"
    by (intro replace_school_no_school) auto
  have "sublist ''school'' ''highschool''" by code_simp
  then have "\<not> sublist ''highschool'' ?t3"
    using third sublist_order.order_trans by blast
  then have final: "replace ''highschool'' ''highsch'' ?t3 = ?t3"
    by (rule replace_untouched)
  show ?thesis using first third final by (simp add: abbreviate_def)
qed

theorem final_replacement_noop_witness:
  "\<not> sublist ''high school'' ''clarin national school''
   \<and> \<not> sublist ''schoolool'' ''clarin national school''
   \<and> abbreviate ''clarin national school'' = ''clarin nat sch''
   \<and> replace ''highschool'' ''highsch'' ''clarin nat sch'' = ''clarin nat sch''"
proof -
  have a: "\<not> sublist ''high school'' ''clarin national school''" by code_simp
  have b: "\<not> sublist ''schoolool'' ''clarin national school''" by code_simp
  have c: "replace ''school'' ''sch'' (replace ''national'' ''nat'' ''clarin national school'')
             = ''clarin nat sch''"
    by code_simp
  show ?thesis using a b c final_replacement_noop [OF a b] by simp
qed

section \<open>Float rounding stays in range\<close>

lemma round_half_even_nonneg: "0 \<le> x \<Longrightarrow> 0 \<le> round_half_even x"
  by (auto simp: round_half_even_def Let_def)

lemma round_half_even_le: "x \<le> of_int n \<Longrightarrow> round_half_even x \<le> n"
proof -
  assume le: "x \<le> of_int n"
  then have fl: "\<lfloor>x\<rfloor> \<le> n" by (simp add: floor_le_iff) 
  show ?thesis
  proof (cases "\<lfloor>x\<rfloor> = n")
    case True
    then have "x - of_int \<lfloor>x\<rfloor> \<le> 0" using le by simp
    then show ?thesis using True by (auto simp: round_half_even_def Let_def)
  next
    case False
    with fl have "\<lfloor>x\<rfloor> + 1 \<le> n" by simp
    then show ?thesis using fl by (auto simp: round_half_even_def Let_def)
  qed
qed

lemma binade_lower:
  assumes "0 < q"
  shows "2 powi (binade q) \<le> q"
proof -
  obtain a b where ab: "quotient_of q = (a, b)" by (cases "quotient_of q")
  then have b: "0 < b" using quotient_of_denom_pos by blast
  have q: "q = of_int a / of_int b" using ab by (rule quotient_of_div)
  with assms b have a: "0 < a" by (simp add: zero_less_divide_iff)
  define k where "k = bitlen a - bitlen b"
  show ?thesis
  proof (cases "2 powi k \<le> q")
    case True
    then show ?thesis using ab by (simp add: binade_def k_def)
  next
    case False
    then have bin: "binade q = k - 1" using ab by (simp add: binade_def k_def)
    from bitlen_bounds [OF a] have la: "2 ^ nat (bitlen a - 1) \<le> a" by simp
    from bitlen_bounds [OF b] have lb: "b < 2 ^ nat (bitlen b)" by simp
    have pa: "1 \<le> bitlen a" using a by (simp add: bitlen_alt_def)
    have pb: "0 \<le> bitlen b" by (rule bitlen_nonneg)
    have "(2::rat) powi (bitlen a - 1) = 2 ^ nat (bitlen a - 1)"
      using pa by (simp add: power_int_nonneg_exp)
    also have "\<dots> \<le> of_int a" using la by (metis of_int_le_iff of_int_numeral of_int_power)
    finally have A: "(2::rat) powi (bitlen a - 1) \<le> of_int a" .
    have "(of_int b :: rat) \<le> 2 ^ nat (bitlen b)"
      using lb by (metis less_imp_le of_int_le_iff of_int_numeral of_int_power)
    also have "\<dots> = 2 powi (bitlen b)" using pb by (simp add: power_int_nonneg_exp)
    finally have B: "(of_int b :: rat) \<le> 2 powi (bitlen b)" .
    have "(2::rat) powi (k - 1) = 2 powi (bitlen a - 1) / 2 powi (bitlen b)"
      by (simp add: k_def power_int_diff)
    also have "\<dots> \<le> of_int a / of_int b"
      using A B b a by (intro frac_le) auto
    finally show ?thesis using bin q by simp
  qed
qed

lemma binade_le:
  assumes "0 < q" "q < 2 powi (e + 1)"
  shows "binade q \<le> e"
proof -
  have lt: "(2::rat) powi (binade q) < 2 powi (e + 1)"
    using binade_lower [OF assms(1)] assms(2) by simp
  show ?thesis
  proof (rule ccontr)
    assume "\<not> binade q \<le> e"
    then have "e + 1 \<le> binade q" by simp
    then have "(2::rat) powi (e + 1) \<le> 2 powi (binade q)"
      by (intro power_int_increasing) auto
    with lt show False by simp
  qed
qed

lemma ulp_pos: "0 < ulp q"
  by (simp add: ulp_def)

lemma fl_nonneg: "0 \<le> q \<Longrightarrow> 0 \<le> fl q"
proof -
  assume "0 \<le> q"
  show ?thesis
  proof (cases "q = 0")
    case True
    then show ?thesis by (simp add: fl_def)
  next
    case False
    with \<open>0 \<le> q\<close> have pos: "0 < q" by simp
    have "0 \<le> q / ulp q" using pos ulp_pos [of q] by simp
    then have "0 \<le> round_half_even (q / ulp q)" by (rule round_half_even_nonneg)
    then have "0 \<le> of_int (round_half_even (q / ulp q)) * ulp q"
      using ulp_pos [of q] by simp
    then show ?thesis using pos by (simp add: fl_def)
  qed
qed

text \<open>
  Rounding does not cross a number that is itself a multiple of the spacing at \<open>q\<close>.
\<close>

lemma fl_le_multiple:
  assumes "0 < q" "q \<le> of_int n * ulp q"
  shows "fl q \<le> of_int n * ulp q"
proof -
  have "q / ulp q \<le> of_int n"
    using assms(2) ulp_pos [of q] by (simp add: pos_divide_le_eq)
  then have "round_half_even (q / ulp q) \<le> n" by (rule round_half_even_le)
  then have "(of_int (round_half_even (q / ulp q)) :: rat) \<le> of_int n" by simp
  then have "of_int (round_half_even (q / ulp q)) * ulp q \<le> of_int n * ulp q"
    using ulp_pos [of q] by (simp add: mult_right_mono)
  then show ?thesis using assms(1) by (simp add: fl_def)
qed

lemma fl_le_bound:
  assumes "0 \<le> q" "q \<le> of_int b" "0 < b" "of_int b < (2::rat) powi (e + 1)" "e \<le> 52"
  shows "fl q \<le> of_int b"
proof (cases "q = 0")
  case True
  then show ?thesis using assms(3) by (simp add: fl_def)
next
  case False
  with assms(1) have pos: "0 < q" by simp
  have "q < 2 powi (e + 1)" using assms(2,4) by simp
  from binade_le [OF pos this] have "binade q \<le> e" .
  then have m: "max (binade q) (- 1022) - 52 \<le> 0" using assms(5) by simp
  define k where "k = nat (- (max (binade q) (- 1022) - 52))"
  have u: "ulp q = 1 / 2 ^ k"
    using m unfolding ulp_def k_def
    by (simp add: power_int_def power_one_over)
  have rep: "of_int b = of_int (b * 2 ^ k) * ulp q"
    unfolding u by simp
  have "q \<le> of_int (b * 2 ^ k) * ulp q"
    unfolding rep [symmetric] by (rule assms(2))
  from fl_le_multiple [OF pos this] show ?thesis
    unfolding rep [symmetric] .
qed

lemma round1_range:
  assumes "0 \<le> x" "x \<le> 100"
  shows "0 \<le> round1 x \<and> round1 x \<le> 100"
proof -
  define n where "n = round_half_even (x * 10)"
  have n0: "0 \<le> n" unfolding n_def using assms(1) by (intro round_half_even_nonneg) simp
  have "x * 10 \<le> of_int 1000" using assms(2) by simp
  then have n1: "n \<le> 1000" unfolding n_def by (rule round_half_even_le)
  have q0: "(0::rat) \<le> of_int n / 10" using n0 by simp
  have q1: "(of_int n / 10 :: rat) \<le> of_int 100" using n1 by simp
  have "fl (of_int n / 10) \<le> of_int 100"
    by (rule fl_le_bound [OF q0 q1, of 6]) simp_all
  moreover have "0 \<le> fl (of_int n / 10)" using q0 by (rule fl_nonneg)
  ultimately show ?thesis by (simp add: round1_def n_def)
qed

lemma percentage_range:
  assumes "0 \<le> c" "c \<le> n" "0 < n"
  shows "0 \<le> round1 (float_mul (float_quotient c n) 100) \<and> round1 (float_mul (float_quotient c n) 100) \<le> 100"
proof -
  have q0: "(0::rat) \<le> of_int c / of_int n" using assms by simp
  have q1: "(of_int c / of_int n :: rat) \<le> of_int 1" using assms by simp
  have d1: "float_quotient c n \<le> 1"
    unfolding float_quotient_def using fl_le_bound [OF q0 q1, of 0] by simp
  have d0: "0 \<le> float_quotient c n"
    unfolding float_quotient_def using q0 by (rule fl_nonneg)
  have p0: "0 \<le> float_quotient c n * 100" using d0 by simp
  have p1: "float_quotient c n * 100 \<le> of_int 100" using d1 by simp
  have m1: "float_mul (float_quotient c n) 100 \<le> 100"
    unfolding float_mul_def using fl_le_bound [OF p0 p1, of 6] by simp
  have m0: "0 \<le> float_mul (float_quotient c n) 100"
    unfolding float_mul_def using p0 by (rule fl_nonneg)
  from round1_range [OF m0 m1] show ?thesis .
qed

lemma tally_nonneg: "0 \<le> tally rs k"
  by (simp add: tally_def)

lemma tally_sum:
  "\<forall>r \<in> set rs. success r \<longrightarrow> cluster_id r \<in> {Some 0, Some 1, Some 2} \<Longrightarrow>
   tally rs 0 + tally rs 1 + tally rs 2 = int (length (filter success rs))"
  by (induction rs) (auto simp: tally_def)

lemma percentage_value_eq:
  "percentage_value [(0, a), (1, b), (2, c)] n 0
     = (if 0 < n then round1 (float_mul (float_quotient a n) 100) else 0)"
  "percentage_value [(0, a), (1, b), (2, c)] n 1
     = (if 0 < n then round1 (float_mul (float_quotient b n) 100) else 0)"
  "percentage_value [(0, a), (1, b), (2, c)] n 2
     = (if 0 < n then round1 (float_mul (float_quotient c n) 100) else 0)"
  by (simp_all add: percentage_value_def dict_get_def)

section \<open>The batch summary\<close>

text \<open>
  C3, as the claim states it, fails on the percentages.  The code computes
  \<open>count / successful * 100\<close> in float arithmetic and rounds that: for 23 of 80 the
  quotient \<open>0.2875\<close> is not a float, the product comes out just below \<open>28.75\<close> and is
  rounded to \<open>28.7\<close>, whereas \<open>round(100 * 23 / 80, 1)\<close> rounds the exact \<open>28.75\<close> to
  \<open>28.8\<close>.
\<close>

theorem percentage_differs_from_formula:
  "summary_rows (get_cluster_batch no_model noon
       (replicate 23 \<lparr>name = ''Inabanga'', municipality = []\<rparr>
        @ replicate 57 \<lparr>name = ''C'', municipality = []\<rparr>))
     = [(0, 23, fl (287 / 10)), (1, 57, fl (712 / 10)), (2, 0, 0)]
   \<and> round1 (float_quotient (100 * 23) 80) = fl (288 / 10)
   \<and> round_half_even (of_int (100 * 23) / 80 * 10) = 288
   \<and> fl (287 / 10) \<noteq> fl (288 / 10)"
  by code_simp

text \<open>
  C3, amended.  A non-empty batch gets the normal response whenever no model is loaded
  or every answer of the model is one of 0, 1, 2 (or below \<open>- 3\<close>).  In every normal
  response \<open>total_schools\<close> is the number of records,
  \<open>successful_predictions + failed_predictions = total_schools\<close>, the three counts sum
  to \<open>successful_predictions\<close>, each percentage is \<open>round(count / successful * 100, 1)\<close>
  as Python floats compute it, or 0 when nothing succeeded, and lies between 0 and
  100.
\<close>

theorem batch_summary_invariants:
  "(schools \<noteq> []
      \<and> (\<not> MODEL_LOADED g \<or> (\<forall>t c. ml_model g t = Some c \<longrightarrow> c \<in> {0, 1, 2} \<or> c < - 3))
     \<longrightarrow> (\<exists>rs sm. get_cluster_batch g clock schools = Inr (NormalShape rs sm)))
   \<and> (\<forall>rs sm. get_cluster_batch g clock schools = Inr (NormalShape rs sm) \<longrightarrow>
        total_schools sm = int (length schools)
        \<and> successful_predictions sm + failed_predictions sm = total_schools sm
        \<and> 0 \<le> successful_predictions sm \<and> 0 \<le> failed_predictions sm
        \<and> map entry_id (summary_clusters sm) = [0, 1, 2]
        \<and> sum_list (map count (summary_clusters sm)) = successful_predictions sm
        \<and> (\<forall>e \<in> set (summary_clusters sm).
              percentage e =
                (if 0 < successful_predictions sm
                 then round1 (float_mul (float_quotient (count e) (successful_predictions sm)) 100)
                 else 0)
              \<and> 0 \<le> percentage e \<and> percentage e \<le> 100
              \<and> (successful_predictions sm = 0 \<longrightarrow> percentage e = 0)))"
proof -
  have main: "total_schools sm = int (length schools)
        \<and> successful_predictions sm + failed_predictions sm = total_schools sm
        \<and> 0 \<le> successful_predictions sm \<and> 0 \<le> failed_predictions sm
        \<and> map entry_id (summary_clusters sm) = [0, 1, 2]
        \<and> sum_list (map count (summary_clusters sm)) = successful_predictions sm
        \<and> (\<forall>e \<in> set (summary_clusters sm).
              percentage e =
                (if 0 < successful_predictions sm
                 then round1 (float_mul (float_quotient (count e) (successful_predictions sm)) 100)
                 else 0)
              \<and> 0 \<le> percentage e \<and> percentage e \<le> 100
              \<and> (successful_predictions sm = 0 \<longrightarrow> percentage e = 0))"
    if b: "get_cluster_batch g clock schools = Inr (NormalShape rs sm)" for rs sm
  proof -
    note f = batch_summary_facts [OF b]
    define n where "n = successful_predictions sm"
    define pct where "pct = (\<lambda>c. if 0 < n then round1 (float_mul (float_quotient c n) 100) else 0)"
    have n: "n = int (length (filter success rs))" using f(3) by (simp add: n_def)
    have sum: "tally rs 0 + tally rs 1 + tally rs 2 = n"
      using tally_sum [OF f(7)] n by simp
    have le: "length (filter success rs) \<le> length rs" by simp
    have rows: "map (\<lambda>e. (entry_id e, count e, percentage e)) (summary_clusters sm) =
          [(0, tally rs 0, pct (tally rs 0)), (1, tally rs 1, pct (tally rs 1)),
           (2, tally rs 2, pct (tally rs 2))]"
      using f(6) by (simp add: percentage_value_eq pct_def n_def)
    have ids: "map entry_id (summary_clusters sm) = [0, 1, 2]"
    proof -
      have "map entry_id (summary_clusters sm)
          = map (\<lambda>(i, c, p). i)
              (map (\<lambda>e. (entry_id e, count e, percentage e)) (summary_clusters sm))"
        by (simp add: comp_def)
      then show ?thesis unfolding rows by simp
    qed
    have counts: "map count (summary_clusters sm) = [tally rs 0, tally rs 1, tally rs 2]"
    proof -
      have "map count (summary_clusters sm)
          = map (\<lambda>(i, c, p). c)
              (map (\<lambda>e. (entry_id e, count e, percentage e)) (summary_clusters sm))"
        by (simp add: comp_def)
      then show ?thesis unfolding rows by simp
    qed
    have pcts: "map (\<lambda>e. (count e, percentage e)) (summary_clusters sm)
        = [(tally rs 0, pct (tally rs 0)), (tally rs 1, pct (tally rs 1)),
           (tally rs 2, pct (tally rs 2))]"
    proof -
      have "map (\<lambda>e. (count e, percentage e)) (summary_clusters sm)
          = map (\<lambda>(i, c, p). (c, p))
              (map (\<lambda>e. (entry_id e, count e, percentage e)) (summary_clusters sm))"
        by (simp add: comp_def)
      then show ?thesis unfolding rows by simp
    qed
    have range: "0 \<le> pct c \<and> pct c \<le> 100 \<and> (n = 0 \<longrightarrow> pct c = 0)"
      if "0 \<le> c" "c \<le> n" for c
      using percentage_range [OF that] by (auto simp: pct_def)
    have each: "percentage e = pct (count e) \<and> 0 \<le> percentage e \<and> percentage e \<le> 100
        \<and> (n = 0 \<longrightarrow> percentage e = 0)"
      if e: "e \<in> set (summary_clusters sm)" for e
    proof -
      from e have "(count e, percentage e) \<in> set (map (\<lambda>e. (count e, percentage e)) (summary_clusters sm))"
        by simp
      then consider "count e = tally rs 0" "percentage e = pct (tally rs 0)"
        | "count e = tally rs 1" "percentage e = pct (tally rs 1)"
        | "count e = tally rs 2" "percentage e = pct (tally rs 2)"
        unfolding pcts by auto
      then show ?thesis
      proof cases
        case 1
        have "0 \<le> tally rs 0" "tally rs 0 \<le> n"
          using sum tally_nonneg [of rs 0] tally_nonneg [of rs 1] tally_nonneg [of rs 2] by auto
        from range [OF this] 1 show ?thesis by simp
      next
        case 2
        have "0 \<le> tally rs 1" "tally rs 1 \<le> n"
          using sum tally_nonneg [of rs 0] tally_nonneg [of rs 1] tally_nonneg [of rs 2] by auto
        from range [OF this] 2 show ?thesis by simp
      next
        case 3
        have "0 \<le> tally rs 2" "tally rs 2 \<le> n"
          using sum tally_nonneg [of rs 0] tally_nonneg [of rs 1] tally_nonneg [of rs 2] by auto
        from range [OF this] 3 show ?thesis by simp
      qed
    qed
    have "total_schools sm = int (length schools)" by (rule f(2))
    moreover have "successful_predictions sm + failed_predictions sm = total_schools sm"
      using f(4) by simp
    moreover have "0 \<le> successful_predictions sm" using f(3) by simp
    moreover have "0 \<le> failed_predictions sm" using f(1,2,3,4) le by simp
    moreover have "sum_list (map count (summary_clusters sm)) = successful_predictions sm"
      unfolding counts using sum by (simp add: n_def)
    ultimately show ?thesis
      using ids each unfolding pct_def n_def by blast
  qed
  have returns: "schools \<noteq> []
      \<and> (\<not> MODEL_LOADED g \<or> (\<forall>t c. ml_model g t = Some c \<longrightarrow> c \<in> {0, 1, 2} \<or> c < - 3))
     \<longrightarrow> (\<exists>rs sm. get_cluster_batch g clock schools = Inr (NormalShape rs sm))"
    using get_cluster_batch_returns [of g schools clock] by blast
  show ?thesis using main returns by blast
qed

theorem batch_summary_invariants_witness:
  "(\<exists>rs sm. get_cluster_batch no_model noon
               [\<lparr>name = ''Inabanga'', municipality = []\<rparr>, \<lparr>name = ''C'', municipality = []\<rparr>]
             = Inr (NormalShape rs sm)
       \<and> total_schools sm = 2 \<and> successful_predictions sm = 2 \<and> failed_predictions sm = 0
       \<and> sum_list (map count (summary_clusters sm)) = 2
       \<and> map percentage (summary_clusters sm) = [50, 50, 0])
   \<and> (\<exists>rs sm. get_cluster_batch (model_returning (- 4)) noon
               [\<lparr>name = ''Inabanga'', municipality = []\<rparr>]
             = Inr (NormalShape rs sm)
       \<and> total_schools sm = 1 \<and> successful_predictions sm = 0 \<and> failed_predictions sm = 1
       \<and> map percentage (summary_clusters sm) = [0, 0, 0])"
proof -
  let ?two = "[\<lparr>name = ''Inabanga'', municipality = []\<rparr>, \<lparr>name = ''C'', municipality = []\<rparr>]"
  let ?one = "[\<lparr>name = ''Inabanga'', municipality = []\<rparr>]"
  have "case get_cluster_batch no_model noon ?two of
          Inr (NormalShape rs sm) \<Rightarrow>
            successful_predictions sm = 2 \<and> map percentage (summary_clusters sm) = [50, 50, 0]
        | _ \<Rightarrow> False"
    by code_simp
  then obtain rs sm where a: "get_cluster_batch no_model noon ?two = Inr (NormalShape rs sm)"
    "successful_predictions sm = 2" "map percentage (summary_clusters sm) = [50, 50, 0]"
    by (auto split: sum.splits batch_response.splits)
  have "case get_cluster_batch (model_returning (- 4)) noon ?one of
          Inr (NormalShape rs sm) \<Rightarrow>
            successful_predictions sm = 0 \<and> map percentage (summary_clusters sm) = [0, 0, 0]
        | _ \<Rightarrow> False"
    by code_simp
  then obtain rs' sm' where b:
    "get_cluster_batch (model_returning (- 4)) noon ?one = Inr (NormalShape rs' sm')"
    "successful_predictions sm' = 0" "map percentage (summary_clusters sm') = [0, 0, 0]"
    by (auto split: sum.splits batch_response.splits)
  from batch_summary_invariants [of ?two no_model noon] a
  have first: "total_schools sm = 2 \<and> successful_predictions sm = 2 \<and> failed_predictions sm = 0
       \<and> sum_list (map count (summary_clusters sm)) = 2
       \<and> map percentage (summary_clusters sm) = [50, 50, 0]"
    by auto
  from batch_summary_invariants [of ?one "model_returning (- 4)" noon] b
  have second: "total_schools sm' = 1 \<and> successful_predictions sm' = 0
       \<and> failed_predictions sm' = 1 \<and> map percentage (summary_clusters sm') = [0, 0, 0]"
    by auto
  show ?thesis using a(1) b(1) first second by simp
qed

end
